theory Spec2Isabelle
  imports Main "HOL-Library.Multiset"
begin

section \<open>Tables\<close>

text \<open>
  The program \<^verbatim>\<open>app.py\<close> is one request handler, \<^verbatim>\<open>transfer\<close>, which reads two
  spreadsheets into pandas DataFrames and reconciles them. A DataFrame is modelled by its
  column labels and its rows, each row holding one cell per column, in column order.

  A cell is a Python string, the floating-point NaN that \<^verbatim>\<open>read_excel\<close> stores for an
  empty spreadsheet cell, or another scalar (an integer, a float, a boolean, a timestamp).
  The program never computes with scalars of the last kind: it only converts them to text
  with \<^verbatim>\<open>str\<close>. Their type is therefore the parameter \<open>'a\<close>, and Python's \<^verbatim>\<open>str\<close>
  on them is the field \<open>py_str\<close> of the record \<open>python\<close> below.
\<close>

datatype 'a cell = Str string | NaN | Other 'a

record 'a dataframe =
  columns :: "string list"
  rows :: "'a cell list list"

text \<open>
  The failures of the handler. \<open>KeyError\<close>, \<open>AttributeError\<close>, \<open>ValueError\<close> and
  \<open>MergeError\<close> are exceptions raised inside pandas; nothing in \<^verbatim>\<open>transfer\<close> catches
  them. \<open>MissingColumnError\<close> stands for the early return of line 63
  (the message that the common column does not exist in one of the files) and \<open>EmptyResultError\<close>
  for the early return of line 85
  (the message that no matching data was found in the first file).
\<close>

datatype error =
  KeyError | AttributeError | ValueError | MergeError | MissingColumnError | EmptyResultError

text \<open>
  A DataFrame is rectangular and \<^verbatim>\<open>read_excel\<close> makes column labels unique (a repeated
  header \<^verbatim>\<open>X\<close> becomes \<^verbatim>\<open>X.1\<close>).
\<close>

definition rectangular :: "'a dataframe \<Rightarrow> bool" where
  "rectangular df = list_all (\<lambda>r. length r = length (columns df)) (rows df)"

definition wf_df :: "'a dataframe \<Rightarrow> bool" where
  "wf_df df = (distinct (columns df) \<and> rectangular df)"

section \<open>Python strings\<close>

text \<open>
  A Python string is a sequence of Unicode code points. It is modelled by a list of 8-bit
  characters under a fixed one-to-one encoding that keeps an ASCII string as it is and
  commutes with concatenation (UTF-8 is one): two Python strings are equal exactly when
  their encodings are.

  Line 56 calls three functions of Python on strings: \<^verbatim>\<open>str\<close> on a cell that is not a
  string, \<^verbatim>\<open>str.strip()\<close> and \<^verbatim>\<open>str.upper()\<close>. The last two depend on the Unicode
  character database (\<^verbatim>\<open>strip\<close> removes every leading and trailing character for which
  \<^verbatim>\<open>str.isspace\<close> holds, the no-break space among them; \<^verbatim>\<open>upper\<close> maps accented
  letters and may change the length of a string). None of the three is in the source: they
  are the three fields of the record \<open>python\<close>, a parameter of the handler, and the
  theorems below hold for every value of it unless they say otherwise.
\<close>

record 'a python =
  py_str :: "'a \<Rightarrow> string"
  py_strip :: "string \<Rightarrow> string"
  py_upper :: "string \<Rightarrow> string"

text \<open>
  On an ASCII string, and only there, the two functions are easy to write down:
  \<^verbatim>\<open>str.isspace\<close> holds for the codes 9 to 13, 28 to 31 and 32, and \<^verbatim>\<open>str.upper()\<close>
  maps \<^verbatim>\<open>a\<close>..\<^verbatim>\<open>z\<close> to \<^verbatim>\<open>A\<close>..\<^verbatim>\<open>Z\<close> and leaves every other ASCII character alone.
  \<open>ascii_strip\<close> and \<open>ascii_upper\<close> say what Python computes on ASCII strings; they say
  nothing about other strings. \<open>ascii_faithful py\<close> states that the functions of \<open>py\<close>
  agree with them on every ASCII string, as Python's do. It is a hypothesis of the theorems
  that need the value of a concrete key, and of them only.
\<close>

definition is_ascii :: "string \<Rightarrow> bool" where
  "is_ascii s = list_all (\<lambda>c. (of_char c :: nat) < 128) s"

definition ascii_isspace :: "char \<Rightarrow> bool" where
  "ascii_isspace c =
     (let n = (of_char c :: nat) in (9 \<le> n \<and> n \<le> 13) \<or> (28 \<le> n \<and> n \<le> 32))"

definition ascii_strip :: "string \<Rightarrow> string" where
  "ascii_strip s = rev (dropWhile ascii_isspace (rev (dropWhile ascii_isspace s)))"

definition ascii_islower :: "char \<Rightarrow> bool" where
  "ascii_islower c = (let n = (of_char c :: nat) in 97 \<le> n \<and> n \<le> 122)"

definition ascii_upper_char :: "char \<Rightarrow> char" where
  "ascii_upper_char c = (if ascii_islower c then char_of ((of_char c :: nat) - 32) else c)"

definition ascii_upper :: "string \<Rightarrow> string" where
  "ascii_upper s = map ascii_upper_char s"

definition ascii_faithful :: "'a python \<Rightarrow> bool" where
  "ascii_faithful py =
     (\<forall>s. is_ascii s \<longrightarrow> py_strip py s = ascii_strip s \<and> py_upper py s = ascii_upper s)"

text \<open>
  The concrete examples below are computed with \<open>ascii_py f\<close>, whose \<^verbatim>\<open>strip\<close> and
  \<^verbatim>\<open>upper\<close> are the ASCII ones. Every string of these examples is ASCII, so that the
  values are the ones Python computes.
\<close>

definition ascii_py :: "('a \<Rightarrow> string) \<Rightarrow> 'a python" where
  "ascii_py f = \<lparr>py_str = f, py_strip = ascii_strip, py_upper = ascii_upper\<rparr>"

text \<open>
  \<^verbatim>\<open>Series.astype(str)\<close> applies \<^verbatim>\<open>str\<close> to every element (pandas 1.x and 2.x): a
  string is unchanged and NaN becomes the three characters \<^verbatim>\<open>nan\<close>.
\<close>

fun astype_str :: "('a \<Rightarrow> string) \<Rightarrow> 'a cell \<Rightarrow> string" where
  "astype_str f (Str s) = s"
| "astype_str f NaN = ''nan''"
| "astype_str f (Other v) = f v"

section \<open>The pandas operations used by the handler\<close>

text \<open>
  \<^verbatim>\<open>df.rename(columns={old: new})\<close> relabels every column called \<open>old\<close>; a label that
  is not there is ignored without error (the default \<^verbatim>\<open>errors='ignore'\<close>).
\<close>

definition rename :: "'a dataframe \<Rightarrow> string \<Rightarrow> string \<Rightarrow> 'a dataframe" where
  "rename df old new = df\<lparr>columns := map (\<lambda>c. if c = old then new else c) (columns df)\<rparr>"

text \<open>The positions of the columns that carry a label.\<close>

definition locs :: "string \<Rightarrow> string list \<Rightarrow> nat list" where
  "locs c cs = filter (\<lambda>i. cs ! i = c) [0..<length cs]"

text \<open>
  \<^verbatim>\<open>df[c]\<close> raises \<^verbatim>\<open>KeyError\<close> when no column is labelled \<open>c\<close> and gives the column
  as a Series when exactly one is. When several are, it gives a DataFrame; the handler
  then goes on with \<^verbatim>\<open>.astype(str).str\<close>, and a DataFrame has no attribute \<^verbatim>\<open>str\<close>:
  \<^verbatim>\<open>AttributeError\<close>. The position of the column is returned with its values.
\<close>

definition getitem :: "'a dataframe \<Rightarrow> string \<Rightarrow> error + (nat \<times> 'a cell list)" where
  "getitem df c =
     (case locs c (columns df) of
        [] \<Rightarrow> Inl KeyError
      | [i] \<Rightarrow> Inr (i, map (\<lambda>r. r ! i) (rows df))
      | _ \<Rightarrow> Inl AttributeError)"

text \<open>
  Lines 48 and 56 (49 and 57 for the second file):
  \<^verbatim>\<open>df = df.rename(columns={col: 'comum'})\<close> and then
  \<^verbatim>\<open>df['comum'] = df['comum'].astype(str).str.strip().str.upper()\<close>.
  The assignment replaces the values of the one column labelled \<^verbatim>\<open>comum\<close>, in place.
\<close>

definition clean :: "'a python \<Rightarrow> 'a cell \<Rightarrow> 'a cell" where
  "clean py v = Str (py_upper py (py_strip py (astype_str (py_str py) v)))"

definition normalize_df :: "'a python \<Rightarrow> 'a dataframe \<Rightarrow> string \<Rightarrow> error + 'a dataframe" where
  "normalize_df py df col =
     (let df' = rename df col ''comum'' in
      case getitem df' ''comum'' of
        Inl e \<Rightarrow> Inl e
      | Inr (i, s) \<Rightarrow>
          Inr (df'\<lparr>rows := map (\<lambda>(r, v). r[i := clean py v]) (zip (rows df') s)\<rparr>))"

text \<open>
  Line 67: \<^verbatim>\<open>df2['comum'].dropna().unique()\<close>. \<^verbatim>\<open>unique\<close> keeps the first occurrence
  of each value, in order of appearance.
\<close>

definition dropna :: "'a cell list \<Rightarrow> 'a cell list" where
  "dropna s = filter (\<lambda>v. v \<noteq> NaN) s"

fun unique :: "'b list \<Rightarrow> 'b list" where
  "unique [] = []"
| "unique (x # xs) = x # unique (filter (\<lambda>y. y \<noteq> x) xs)"

text \<open>
  Lines 72 and 74: \<^verbatim>\<open>df[df['comum'].isin(values)]\<close>. \<^verbatim>\<open>isin\<close> gives one boolean per
  row, and indexing a DataFrame with that mask keeps the rows marked true, in order.
\<close>

definition isin :: "'a cell list \<Rightarrow> 'a cell list \<Rightarrow> bool list" where
  "isin s vals = map (\<lambda>v. v \<in> set vals) s"

definition select_rows :: "'a dataframe \<Rightarrow> bool list \<Rightarrow> 'a dataframe" where
  "select_rows df keep = df\<lparr>rows := map fst (filter snd (zip (rows df) keep))\<rparr>"

text \<open>Line 83: \<^verbatim>\<open>df.empty\<close> holds when either axis has length zero.\<close>

definition df_empty :: "'a dataframe \<Rightarrow> bool" where
  "df_empty df = (rows df = [] \<or> columns df = [])"

text \<open>
  Line 89: \<^verbatim>\<open>pd.merge(left, right, on='comum', how='outer')\<close>, with the default suffixes
  \<^verbatim>\<open>('_x', '_y')\<close> (pandas 2.x).

  \<^item> The key must label exactly one column on each side: \<^verbatim>\<open>KeyError\<close> when it labels
    none, \<^verbatim>\<open>ValueError\<close> when it labels several.
  \<^item> The right key column is dropped; the result has the left columns, then the remaining
    right columns. A label that occurs on both sides gets the suffix of its side. A
    suffixed label that repeats a label of its own side raises \<^verbatim>\<open>MergeError\<close>.
  \<^item> Rows are grouped by key value, NaN keys matching each other. A key with rows on both
    sides gives every pair (left row, right row), left rows outermost; a key with rows on
    one side only gives these rows once, with NaN in the columns of the other side, the key
    column keeping the key.
  \<^item> The order of the key groups depends on the pandas release: first appearance in the
    left keys followed by the right keys before 2.2, ascending from 2.2 on. It is the
    parameter \<open>key_order\<close>, applied to the distinct keys in order of first appearance.

  The model keeps cell values as they are: pandas may change the dtype of a column that
  receives NaN (an integer column becomes a float column with equal values).
\<close>

definition drop_at :: "nat \<Rightarrow> 'b list \<Rightarrow> 'b list" where
  "drop_at j xs = take j xs @ drop (Suc j) xs"

definition add_suffix :: "string \<Rightarrow> string list \<Rightarrow> string list \<Rightarrow> string list" where
  "add_suffix suf to_rename cs = map (\<lambda>c. if c \<in> set to_rename then c @ suf else c) cs"

definition suffix_dups :: "string list \<Rightarrow> string list \<Rightarrow> string list" where
  "suffix_dups orig labels =
     map (\<lambda>i. labels ! i)
       (filter (\<lambda>i. labels ! i \<in> set (take i labels) \<and> orig ! i \<notin> set (take i orig))
          [0..<length labels])"

definition join_group ::
  "nat \<Rightarrow> nat \<Rightarrow> nat \<Rightarrow> nat \<Rightarrow> 'a cell list list \<Rightarrow> 'a cell list list \<Rightarrow> 'a cell \<Rightarrow> 'a cell list list"
where
  "join_group i j nl nr lrows rrows k =
     (let ls = filter (\<lambda>r. r ! i = k) lrows;
          rs = filter (\<lambda>r. r ! j = k) rrows
      in if rs = [] then map (\<lambda>l. l @ replicate nr NaN) ls
         else if ls = [] then map (\<lambda>r. (replicate nl NaN)[i := k] @ drop_at j r) rs
         else concat (map (\<lambda>l. map (\<lambda>r. l @ drop_at j r) rs) ls))"

definition merge ::
  "('a cell list \<Rightarrow> 'a cell list) \<Rightarrow> 'a dataframe \<Rightarrow> 'a dataframe \<Rightarrow> error + 'a dataframe"
where
  "merge key_order left right =
     (let li = locs ''comum'' (columns left); ri = locs ''comum'' (columns right)
      in if li = [] \<or> ri = [] then Inl KeyError
         else if length li \<noteq> 1 \<or> length ri \<noteq> 1 then Inl ValueError
         else
           let i = hd li; j = hd ri;
               rcols = drop_at j (columns right);
               to_rename = filter (\<lambda>c. c \<in> set rcols) (columns left);
               llabels = add_suffix ''_x'' to_rename (columns left);
               rlabels = add_suffix ''_y'' to_rename rcols
           in if suffix_dups (columns left) llabels \<noteq> [] \<or> suffix_dups rcols rlabels \<noteq> []
              then Inl MergeError
              else Inr \<lparr>columns = llabels @ rlabels,
                        rows = concat (map
                          (join_group i j (length (columns left)) (length rcols)
                             (rows left) (rows right))
                          (key_order (unique (map (\<lambda>r. r ! i) (rows left)
                                              @ map (\<lambda>r. r ! j) (rows right)))))\<rparr>)"

section \<open>The handler\<close>

text \<open>
  \<^verbatim>\<open>transfer\<close>, lines 48 to 89, from the two parsed DataFrames and the two column names
  of the form to the DataFrame that is written out. The source renames both frames (lines
  48, 49) before it cleans either (lines 56, 57); renaming cannot fail, so the first
  failure is the same when each frame is renamed and cleaned in turn. The names
  \<open>cidades_comum\<close>, \<open>df1_filtrado\<close> and \<open>df2_filtrado\<close> are the source's.
\<close>

definition cidades_comum :: "'a dataframe \<Rightarrow> error + 'a cell list" where
  "cidades_comum df2 =
     (case getitem df2 ''comum'' of
        Inl e \<Rightarrow> Inl e
      | Inr (j, s) \<Rightarrow> Inr (unique (dropna s)))"

definition filtrado :: "'a dataframe \<Rightarrow> 'a cell list \<Rightarrow> error + 'a dataframe" where
  "filtrado df vals =
     (case getitem df ''comum'' of
        Inl e \<Rightarrow> Inl e
      | Inr (i, s) \<Rightarrow> Inr (select_rows df (isin s vals)))"

definition transfer ::
  "'a python \<Rightarrow> ('a cell list \<Rightarrow> 'a cell list) \<Rightarrow>
   'a dataframe \<Rightarrow> 'a dataframe \<Rightarrow> string \<Rightarrow> string \<Rightarrow> error + 'a dataframe"
where
  "transfer py key_order arquivo1 arquivo2 coluna_comum_arquivo1 coluna_comum_arquivo2 =
     (case normalize_df py arquivo1 coluna_comum_arquivo1 of
        Inl e \<Rightarrow> Inl e
      | Inr df1 \<Rightarrow>
     (case normalize_df py arquivo2 coluna_comum_arquivo2 of
        Inl e \<Rightarrow> Inl e
      | Inr df2 \<Rightarrow>
     if ''comum'' \<notin> set (columns df1) \<or> ''comum'' \<notin> set (columns df2)
     then Inl MissingColumnError
     else
     (case cidades_comum df2 of
        Inl e \<Rightarrow> Inl e
      | Inr vals \<Rightarrow>
     (case filtrado df1 vals of
        Inl e \<Rightarrow> Inl e
      | Inr df1_filtrado \<Rightarrow>
     (case filtrado df2 vals of
        Inl e \<Rightarrow> Inl e
      | Inr df2_filtrado \<Rightarrow>
     if df_empty df1_filtrado then Inl EmptyResultError
     else merge key_order df1_filtrado df2_filtrado)))))"

section \<open>Predicates of the specification\<close>

text \<open>
  A key cell is normalised when it is a string that is trimmed and uppercased: one that
  \<^verbatim>\<open>strip\<close> and \<^verbatim>\<open>upper\<close> leave as it is.
\<close>

definition normalized_key :: "'a python \<Rightarrow> 'a cell \<Rightarrow> bool" where
  "normalized_key py v = (case v of Str s \<Rightarrow> py_strip py s = s \<and> py_upper py s = s | _ \<Rightarrow> False)"

section \<open>Facts about the string operations\<close>

lemma ascii_faithful_ascii_py: "ascii_faithful (ascii_py f)"
  by (simp add: ascii_faithful_def ascii_py_def)

lemma set_ascii_strip: "set (ascii_strip s) \<subseteq> set s"
proof
  fix c assume "c \<in> set (ascii_strip s)"
  then have "c \<in> set (dropWhile ascii_isspace (rev (dropWhile ascii_isspace s)))"
    by (simp add: ascii_strip_def)
  then have "c \<in> set (rev (dropWhile ascii_isspace s))" by (rule set_dropWhileD)
  then have "c \<in> set (dropWhile ascii_isspace s)" by simp
  then show "c \<in> set s" by (rule set_dropWhileD)
qed

lemma is_ascii_strip: "is_ascii s \<Longrightarrow> is_ascii (ascii_strip s)"
  using set_ascii_strip [of s] by (auto simp: is_ascii_def list_all_iff)

lemma clean_ascii:
  assumes "ascii_faithful py" and "is_ascii s"
  shows "clean py (Str s) = Str (ascii_upper (ascii_strip s))"
proof -
  have 1: "py_strip py s = ascii_strip s" using assms by (simp add: ascii_faithful_def)
  have "is_ascii (ascii_strip s)" by (rule is_ascii_strip [OF assms(2)])
  then have 2: "py_upper py (ascii_strip s) = ascii_upper (ascii_strip s)"
    using assms(1) by (simp add: ascii_faithful_def)
  show ?thesis by (simp add: clean_def 1 2)
qed

section \<open>Facts about column lookup and normalisation\<close>

lemma locs_mem: "i \<in> set (locs c cs) \<longleftrightarrow> i < length cs \<and> cs ! i = c"
  by (auto simp: locs_def)

lemma locs_distinct: "distinct (locs c cs)"
  by (simp add: locs_def)

lemma locs_Nil_iff: "locs c cs = [] \<longleftrightarrow> c \<notin> set cs"
proof
  assume e: "locs c cs = []"
  show "c \<notin> set cs"
  proof
    assume "c \<in> set cs"
    then obtain i where "i < length cs" "cs ! i = c" by (auto simp: in_set_conv_nth)
    then have "i \<in> set (locs c cs)" by (simp add: locs_mem)
    with e show False by simp
  qed
next
  assume n: "c \<notin> set cs"
  show "locs c cs = []"
  proof (cases "locs c cs")
    case Nil then show ?thesis .
  next
    case (Cons i rest)
    then have "i \<in> set (locs c cs)" by simp
    then have "i < length cs" "cs ! i = c" by (simp_all add: locs_mem)
    then have "c \<in> set cs" by (metis nth_mem)
    with n show ?thesis by blast
  qed
qed

lemma locs_singleD:
  assumes "locs c cs = [i]"
  shows "i < length cs" and "cs ! i = c" and "\<And>m. m < length cs \<Longrightarrow> cs ! m = c \<Longrightarrow> m = i"
proof -
  have "i \<in> set (locs c cs)" using assms by simp
  then show "i < length cs" and "cs ! i = c" by (simp_all add: locs_mem)
  fix m assume "m < length cs" "cs ! m = c"
  then have "m \<in> set (locs c cs)" by (simp add: locs_mem)
  then show "m = i" using assms by simp
qed

lemma distinct_set_single:
  assumes "distinct xs" "set xs = {i}"
  shows "xs = [i]"
proof -
  have "length xs = card (set xs)" using assms(1) by (simp add: distinct_card)
  then have "length xs = 1" using assms(2) by simp
  then obtain x where "xs = [x]" by (cases xs) auto
  then show ?thesis using assms(2) by simp
qed

lemma locs_unique:
  assumes "i < length cs" "cs ! i = c" "\<And>m. m < length cs \<Longrightarrow> cs ! m = c \<Longrightarrow> m = i"
  shows "locs c cs = [i]"
proof -
  have "set (locs c cs) = {i}"
  proof (rule set_eqI)
    fix m show "m \<in> set (locs c cs) \<longleftrightarrow> m \<in> {i}"
    proof
      assume "m \<in> set (locs c cs)"
      then have "m < length cs" "cs ! m = c" by (simp_all add: locs_mem)
      then have "m = i" by (rule assms(3))
      then show "m \<in> {i}" by simp
    next
      assume "m \<in> {i}"
      then have "m = i" by simp
      then show "m \<in> set (locs c cs)" using assms(1,2) by (simp add: locs_mem)
    qed
  qed
  with locs_distinct [of c cs] show ?thesis by (rule distinct_set_single)
qed

lemma locs_distinct_cols:
  assumes "distinct cs" "i < length cs"
  shows "locs (cs ! i) cs = [i]"
proof (rule locs_unique)
  show "i < length cs" by (rule assms(2))
  show "cs ! i = cs ! i" by (rule refl)
  fix m assume "m < length cs" "cs ! m = cs ! i"
  then show "m = i" using assms nth_eq_iff_index_eq by blast
qed

lemma columns_rename [simp]:
  "columns (rename df old new) = map (\<lambda>c. if c = old then new else c) (columns df)"
  by (simp add: rename_def)

lemma rows_rename [simp]: "rows (rename df old new) = rows df"
  by (simp add: rename_def)

lemma zip_with_map: "map (\<lambda>(r, v). g r v) (zip xs (map f xs)) = map (\<lambda>r. g r (f r)) xs"
  by (induction xs) auto

lemma normalize_Inr:
  assumes "locs ''comum'' (columns (rename df col ''comum'')) = [i]"
  shows "normalize_df py df col =
           Inr \<lparr>columns = columns (rename df col ''comum''),
                rows = map (\<lambda>r. r[i := clean py (r ! i)]) (rows df)\<rparr>"
  using assms by (simp add: normalize_df_def getitem_def Let_def zip_with_map rename_def)

lemma normalize_Inl:
  "locs ''comum'' (columns (rename df col ''comum'')) = [] \<Longrightarrow> normalize_df py df col = Inl KeyError"
  "length (locs ''comum'' (columns (rename df col ''comum''))) > 1 \<Longrightarrow>
     normalize_df py df col = Inl AttributeError"
  by (auto simp: normalize_df_def getitem_def Let_def split: list.splits)

lemma normalize_InrD:
  assumes "normalize_df py df col = Inr d"
  shows "\<exists>i. locs ''comum'' (columns (rename df col ''comum'')) = [i] \<and>
             d = \<lparr>columns = columns (rename df col ''comum''),
                  rows = map (\<lambda>r. r[i := clean py (r ! i)]) (rows df)\<rparr>"
proof (cases "locs ''comum'' (columns (rename df col ''comum''))")
  case Nil
  then show ?thesis using assms normalize_Inl(1) [of df col py] by simp
next
  case c: (Cons i rest)
  show ?thesis
  proof (cases rest)
    case Nil
    then show ?thesis using c assms normalize_Inr [of df col i py] by simp
  next
    case (Cons a list)
    then show ?thesis using c assms normalize_Inl(2) [of df col py] by simp
  qed
qed

lemma rename_locs:
  assumes "distinct cs" "ka \<in> set cs" "ka = new \<or> new \<notin> set cs"
  shows "\<exists>i. locs ka cs = [i] \<and> map (\<lambda>c. if c = ka then new else c) cs = cs[i := new] \<and>
             locs new (cs[i := new]) = [i]"
proof -
  obtain i where i: "i < length cs" "cs ! i = ka" using assms(2) by (auto simp: in_set_conv_nth)
  have l: "locs ka cs = [i]" using locs_distinct_cols [OF assms(1) i(1)] i(2) by simp
  have m: "map (\<lambda>c. if c = ka then new else c) cs = cs[i := new]"
  proof (rule nth_equalityI)
    show "length (map (\<lambda>c. if c = ka then new else c) cs) = length (cs[i := new])" by simp
    fix n assume "n < length (map (\<lambda>c. if c = ka then new else c) cs)"
    then have n: "n < length cs" by simp
    show "map (\<lambda>c. if c = ka then new else c) cs ! n = cs[i := new] ! n"
    proof (cases "n = i")
      case True then show ?thesis using n i by simp
    next
      case False
      then have "cs ! n \<noteq> ka" using n i assms(1) nth_eq_iff_index_eq by metis
      then show ?thesis using n False by simp
    qed
  qed
  have "locs new (cs[i := new]) = [i]"
  proof (rule locs_unique)
    show "i < length (cs[i := new])" using i by simp
    show "cs[i := new] ! i = new" using i by simp
    fix k assume k: "k < length (cs[i := new])" "cs[i := new] ! k = new"
    show "k = i"
    proof (rule ccontr)
      assume ne: "k \<noteq> i"
      then have kn: "cs ! k = new" using k by (simp add: nth_list_update)
      then have "new \<in> set cs" using k by (auto simp: in_set_conv_nth)
      then have "ka = new" using assms(3) by blast
      then have "cs ! k = cs ! i" using kn i by simp
      moreover have "k < length cs" using k by simp
      ultimately have "k = i" using i(1) assms(1) nth_eq_iff_index_eq by metis
      then show False using ne by simp
    qed
  qed
  then show ?thesis using l m by blast
qed

section \<open>Facts about filtering and the handler\<close>

lemma getitem_Inr_iff:
  "getitem df c = Inr (i, s) \<longleftrightarrow> locs c (columns df) = [i] \<and> s = map (\<lambda>r. r ! i) (rows df)"
  by (auto simp: getitem_def split: list.splits)

lemma set_unique [simp]: "set (unique xs) = set xs"
  by (induction xs rule: unique.induct) auto

lemma distinct_unique [simp]: "distinct (unique xs)"
  by (induction xs rule: unique.induct) auto

lemma select_isin:
  "map fst (filter snd (zip xs (map (\<lambda>r. P r) xs))) = filter P xs"
  by (induction xs) auto

lemma filtrado_Inr:
  assumes "locs ''comum'' (columns df) = [i]"
  shows "filtrado df vals = Inr \<lparr>columns = columns df, rows = filter (\<lambda>r. r ! i \<in> set vals) (rows df)\<rparr>"
proof -
  have "map fst (filter snd (zip (rows df) (map ((\<lambda>v. v \<in> set vals) \<circ> (\<lambda>r. r ! i)) (rows df))))
        = filter (\<lambda>r. r ! i \<in> set vals) (rows df)"
    using select_isin [of "rows df" "\<lambda>r. r ! i \<in> set vals"] by (simp add: comp_def)
  then show ?thesis using assms
    by (simp add: filtrado_def getitem_def select_rows_def isin_def)
qed

lemma cidades_comum_Inr:
  assumes "locs ''comum'' (columns df) = [j]"
  shows "cidades_comum df = Inr (unique (dropna (map (\<lambda>r. r ! j) (rows df))))"
  using assms by (simp add: cidades_comum_def getitem_def)

lemma set_dropna [simp]: "set (dropna s) = set s - {NaN}"
  by (auto simp: dropna_def)

lemma clean_normalized: "normalized_key py v \<Longrightarrow> clean py v = v"
  by (cases v) (simp_all add: normalized_key_def clean_def)

lemma normalize_keys:
  assumes "rectangular df" and "normalize_df py df col = Inr d"
  shows "\<exists>i. locs ''comum'' (columns (rename df col ''comum'')) = [i] \<and>
             locs ''comum'' (columns d) = [i] \<and>
             columns d = columns (rename df col ''comum'') \<and>
             rows d = map (\<lambda>r. r[i := clean py (r ! i)]) (rows df) \<and>
             map (\<lambda>r. r ! i) (rows d) = map (\<lambda>r. clean py (r ! i)) (rows df)"
proof -
  obtain i where i: "locs ''comum'' (columns (rename df col ''comum'')) = [i]"
    and d: "d = \<lparr>columns = columns (rename df col ''comum''),
                  rows = map (\<lambda>r. r[i := clean py (r ! i)]) (rows df)\<rparr>"
    using normalize_InrD [OF assms(2)] by blast
  have il: "i < length (columns df)" using locs_singleD(1) [OF i] by simp
  have "map (\<lambda>r. r ! i) (rows d) = map (\<lambda>r. clean py (r ! i)) (rows df)"
  proof -
    have "\<And>r. r \<in> set (rows df) \<Longrightarrow> r[i := clean py (r ! i)] ! i = clean py (r ! i)"
    proof -
      fix r assume "r \<in> set (rows df)"
      then have "length r = length (columns df)"
        using assms(1) by (simp add: rectangular_def list_all_iff)
      then show "r[i := clean py (r ! i)] ! i = clean py (r ! i)" using il by simp
    qed
    then show ?thesis by (simp add: d)
  qed
  then show ?thesis using i d by simp
qed

lemma normalize_error:
  "normalize_df py df col = Inl e \<Longrightarrow> e = KeyError \<or> e = AttributeError"
  by (auto simp: normalize_df_def getitem_def Let_def split: list.splits)

lemma merge_not_EmptyResultError: "merge key_order L R \<noteq> Inl EmptyResultError"
  by (simp add: merge_def Let_def)

lemma transfer_normalized:
  assumes n1: "normalize_df py a1 c1 = Inr d1" and n2: "normalize_df py a2 c2 = Inr d2"
    and f1: "filtrado d1 vals = Inr f1" and f2: "filtrado d2 vals = Inr f2"
    and v: "cidades_comum d2 = Inr vals"
  shows "transfer py key_order a1 a2 c1 c2 =
           (if rows f1 = [] then Inl EmptyResultError else merge key_order f1 f2)"
proof -
  obtain i where i: "locs ''comum'' (columns d1) = [i]"
    using normalize_InrD [OF n1] by auto
  obtain j where j: "locs ''comum'' (columns d2) = [j]"
    using normalize_InrD [OF n2] by auto
  have c1: "''comum'' \<in> set (columns d1)" using i locs_Nil_iff [of "''comum''" "columns d1"] by simp
  have c2: "''comum'' \<in> set (columns d2)" using j locs_Nil_iff [of "''comum''" "columns d2"] by simp
  have "f1 = \<lparr>columns = columns d1, rows = filter (\<lambda>r. r ! i \<in> set vals) (rows d1)\<rparr>"
    using filtrado_Inr [OF i, of vals] f1 by simp
  then have "columns f1 = columns d1" by simp
  then have e: "df_empty f1 \<longleftrightarrow> rows f1 = []" using c1 by (auto simp: df_empty_def)
  show ?thesis using n1 n2 c1 c2 v f1 f2 e by (simp add: transfer_def)
qed

lemma clean_NaN: "ascii_faithful py \<Longrightarrow> clean py NaN = Str ''NAN''"
proof -
  assume a: "ascii_faithful py"
  have i: "is_ascii ''nan''" by (simp add: is_ascii_def)
  have "clean py NaN = clean py (Str ''nan'')" by (simp add: clean_def)
  also have "\<dots> = Str (ascii_upper (ascii_strip ''nan''))" by (rule clean_ascii [OF a i])
  also have "ascii_upper (ascii_strip ''nan'') = ''NAN''" by code_simp
  finally show ?thesis .
qed

lemma dropna_id: "NaN \<notin> set s \<Longrightarrow> dropna s = s"
  by (induction s) (auto simp: dropna_def)

lemma normalize_key_series:
  assumes "rectangular df" and "normalize_df py df col = Inr d"
  shows "\<exists>i s. getitem (rename df col ''comum'') ''comum'' = Inr (i, s) \<and>
               getitem d ''comum'' = Inr (i, map (clean py) s) \<and>
               locs ''comum'' (columns d) = [i] \<and> length s = length (rows d)"
proof -
  obtain i where i: "locs ''comum'' (columns (rename df col ''comum'')) = [i]"
      "locs ''comum'' (columns d) = [i]"
      "rows d = map (\<lambda>r. r[i := clean py (r ! i)]) (rows df)"
      "map (\<lambda>r. r ! i) (rows d) = map (\<lambda>r. clean py (r ! i)) (rows df)"
    using normalize_keys [OF assms] by blast
  let ?s = "map (\<lambda>r. r ! i) (rows df)"
  have 1: "getitem (rename df col ''comum'') ''comum'' = Inr (i, ?s)"
    using i(1) by (simp add: getitem_Inr_iff)
  have "map (\<lambda>r. r ! i) (rows d) = map (clean py) ?s" using i(4) by (simp add: comp_def)
  then have 2: "getitem d ''comum'' = Inr (i, map (clean py) ?s)"
    using i(2) by (simp add: getitem_Inr_iff)
  have 3: "length ?s = length (rows d)" using i(3) by simp
  show ?thesis using 1 2 3 i(2) by blast
qed

section \<open>Auxiliary facts about the outer join and the handler\<close>

lemma length_drop_at: "j < length xs \<Longrightarrow> length (drop_at j xs) = length xs - 1"
  by (simp add: drop_at_def)

lemma set_drop_at_subset: "set (drop_at j xs) \<subseteq> set xs"
  by (auto simp: drop_at_def dest: in_set_takeD in_set_dropD)

lemma set_drop_at_locs:
  assumes "locs c cs = [j]"
  shows "set (drop_at j cs) = set cs - {c}"
proof -
  have j: "j < length cs" "cs ! j = c"
    by (rule locs_singleD(1) [OF assms], rule locs_singleD(2) [OF assms])
  have u: "\<And>m. m < length cs \<Longrightarrow> cs ! m = c \<Longrightarrow> m = j"
    by (rule locs_singleD(3) [OF assms])
  have n1: "c \<notin> set (take j cs)"
  proof
    assume "c \<in> set (take j cs)"
    then obtain m where m: "m < length (take j cs)" "take j cs ! m = c"
      by (auto simp: in_set_conv_nth)
    then have "m < j" "m < length cs" "cs ! m = c" using j by simp_all
    then show False using u by blast
  qed
  have n2: "c \<notin> set (drop (Suc j) cs)"
  proof
    assume "c \<in> set (drop (Suc j) cs)"
    then obtain m where m: "m < length (drop (Suc j) cs)" "drop (Suc j) cs ! m = c"
      by (auto simp: in_set_conv_nth)
    then have "Suc j + m < length cs" "cs ! (Suc j + m) = c" by simp_all
    then have "Suc j + m = j" using u by blast
    then show False by simp
  qed
  have "set cs = set (take j cs @ cs ! j # drop (Suc j) cs)"
    by (rule arg_cong [OF id_take_nth_drop [OF j(1)]])
  then have s: "set cs = set (take j cs) \<union> {c} \<union> set (drop (Suc j) cs)"
    using j(2) by simp
  have d: "set (drop_at j cs) = set (take j cs) \<union> set (drop (Suc j) cs)"
    by (simp add: drop_at_def)
  show ?thesis unfolding d s using n1 n2 by blast
qed

lemma merge_InrD:
  assumes "merge key_order L R = Inr res"
  shows "\<exists>i j. locs ''comum'' (columns L) = [i] \<and> locs ''comum'' (columns R) = [j] \<and>
     columns res =
       add_suffix ''_x'' (filter (\<lambda>c. c \<in> set (drop_at j (columns R))) (columns L)) (columns L)
       @ add_suffix ''_y'' (filter (\<lambda>c. c \<in> set (drop_at j (columns R))) (columns L))
           (drop_at j (columns R)) \<and>
     rows res = concat (map
        (join_group i j (length (columns L)) (length (drop_at j (columns R))) (rows L) (rows R))
        (key_order (unique (map (\<lambda>r. r ! i) (rows L) @ map (\<lambda>r. r ! j) (rows R)))))"
proof -
  let ?li = "locs ''comum'' (columns L)" and ?ri = "locs ''comum'' (columns R)"
  have a: "?li \<noteq> []" "?ri \<noteq> []" "length ?li = 1" "length ?ri = 1"
    using assms by (auto simp: merge_def Let_def split: if_splits)
  obtain i where i: "?li = [i]" using a(3) by (cases ?li) auto
  obtain j where j: "?ri = [j]" using a(4) by (cases ?ri) auto
  have "res = \<lparr>columns =
       add_suffix ''_x'' (filter (\<lambda>c. c \<in> set (drop_at j (columns R))) (columns L)) (columns L)
       @ add_suffix ''_y'' (filter (\<lambda>c. c \<in> set (drop_at j (columns R))) (columns L))
           (drop_at j (columns R)),
     rows = concat (map
        (join_group i j (length (columns L)) (length (drop_at j (columns R))) (rows L) (rows R))
        (key_order (unique (map (\<lambda>r. r ! i) (rows L) @ map (\<lambda>r. r ! j) (rows R)))))\<rparr>"
    using assms i j by (simp add: merge_def Let_def split: if_splits)
  then show ?thesis using i j by simp
qed

lemma join_group_row:
  assumes "r \<in> set (join_group i j nl nr lrows rrows k)"
    and "\<forall>l \<in> set lrows. length l = nl" and "\<forall>x \<in> set rrows. length x = Suc nr"
    and "i < nl" and "j < Suc nr"
  shows "length r = nl + nr \<and> r ! i = k \<and>
         (k \<in> (\<lambda>x. x ! i) ` set lrows \<or> k \<in> (\<lambda>x. x ! j) ` set rrows) \<and>
         (k \<notin> (\<lambda>x. x ! j) ` set rrows \<longrightarrow> drop nl r = replicate nr NaN) \<and>
         (k \<notin> (\<lambda>x. x ! i) ` set lrows \<longrightarrow> (\<forall>n<nl. n \<noteq> i \<longrightarrow> r ! n = NaN))"
proof -
  let ?ls = "filter (\<lambda>x. x ! i = k) lrows" and ?rs = "filter (\<lambda>x. x ! j = k) rrows"
  have dl: "\<And>x. x \<in> set rrows \<Longrightarrow> length (drop_at j x) = nr"
    using assms(3,5) by (simp add: length_drop_at)
  consider (a) "?rs = []" | (b) "?rs \<noteq> []" "?ls = []" | (c) "?rs \<noteq> []" "?ls \<noteq> []" by blast
  then show ?thesis
  proof cases
    case a
    then obtain l where l: "l \<in> set lrows" "l ! i = k" "r = l @ replicate nr NaN"
      using assms(1) by (auto simp: join_group_def Let_def)
    have ll: "length l = nl" using l(1) assms(2) by simp
    have nk: "k \<notin> (\<lambda>x. x ! j) ` set rrows" using a by (auto simp: filter_empty_conv)
    have "r ! i = k" using l ll assms(4) by (simp add: nth_append)
    moreover have "length r = nl + nr" using l ll by simp
    moreover have "drop nl r = replicate nr NaN" using l ll by simp
    moreover have "k \<in> (\<lambda>x. x ! i) ` set lrows" using l(1,2) by force
    ultimately show ?thesis by simp
  next
    case b
    then obtain x where x: "x \<in> set rrows" "x ! j = k"
        "r = (replicate nl NaN)[i := k] @ drop_at j x"
      using assms(1) by (auto simp: join_group_def Let_def)
    have nk: "k \<notin> (\<lambda>x. x ! i) ` set lrows" using b(2) by (auto simp: filter_empty_conv)
    have "r ! i = k" using x assms(4) by (simp add: nth_append)
    moreover have "length r = nl + nr" using x dl by simp
    moreover have "k \<in> (\<lambda>x. x ! j) ` set rrows" using x(1,2) by force
    moreover have "\<forall>n<nl. n \<noteq> i \<longrightarrow> r ! n = NaN" using x by (simp add: nth_append)
    ultimately show ?thesis by simp
  next
    case c
    then obtain l x where lx: "l \<in> set lrows" "l ! i = k" "x \<in> set rrows" "x ! j = k"
        "r = l @ drop_at j x"
      using assms(1) by (auto simp: join_group_def Let_def)
    have ll: "length l = nl" using lx(1) assms(2) by simp
    have "r ! i = k" using lx ll assms(4) by (simp add: nth_append)
    moreover have "length r = nl + nr" using lx ll dl by simp
    moreover have "k \<in> (\<lambda>x. x ! j) ` set rrows" using lx(3,4) by force
    moreover have "k \<in> (\<lambda>x. x ! i) ` set lrows" using lx(1,2) by force
    ultimately show ?thesis by simp
  qed
qed

lemma suffix_not_comum: "c @ ''_x'' \<noteq> ''comum''" "c @ ''_y'' \<noteq> ''comum''"
proof -
  have "last (c @ ''_x'') \<noteq> last ''comum''" by simp
  then show "c @ ''_x'' \<noteq> ''comum''" by metis
  have "last (c @ ''_y'') \<noteq> last ''comum''" by simp
  then show "c @ ''_y'' \<noteq> ''comum''" by metis
qed

lemma add_suffix_nth:
  "n < length cs \<Longrightarrow>
     add_suffix suf tr cs ! n = (if cs ! n \<in> set tr then cs ! n @ suf else cs ! n)"
  by (simp add: add_suffix_def)

lemma length_add_suffix [simp]: "length (add_suffix suf tr cs) = length cs"
  by (simp add: add_suffix_def)

lemma set_add_suffix:
  "set (add_suffix suf tr cs) = (\<lambda>c. if c \<in> set tr then c @ suf else c) ` set cs"
  by (simp add: add_suffix_def)

lemma add_suffix_in: "c \<in> set cs \<Longrightarrow> c \<in> set tr \<Longrightarrow> c @ suf \<in> set (add_suffix suf tr cs)"
  by (force simp: add_suffix_def)

lemma add_suffix_keep: "c \<in> set cs \<Longrightarrow> c \<notin> set tr \<Longrightarrow> c \<in> set (add_suffix suf tr cs)"
  by (force simp: add_suffix_def)

lemma rectangular_rows: "rectangular df \<Longrightarrow> r \<in> set (rows df) \<Longrightarrow> length r = length (columns df)"
  by (simp add: rectangular_def list_all_iff)

lemma length_join_group:
  "length (join_group i j nl nr lrows rrows k) =
     (let a = length (filter (\<lambda>x. x ! i = k) lrows);
          b = length (filter (\<lambda>x. x ! j = k) rrows)
      in if b = 0 then a else if a = 0 then b else a * b)"
  by (simp add: join_group_def Let_def length_concat comp_def sum_list_triv)

lemma length_filter_key:
  "length (filter (\<lambda>x. x ! i = k) xs) = length (filter (\<lambda>v. v = k) (map (\<lambda>x. x ! i) xs))"
  by (simp add: filter_map comp_def)

lemma length_filter_distinct:
  "distinct vs \<Longrightarrow> length (filter (\<lambda>v. v = k) vs) = (if k \<in> set vs then 1 else 0)"
  by (induction vs) auto

lemma length_filter_pos: "k \<in> set vs \<Longrightarrow> 0 < length (filter (\<lambda>v. v = k) vs)"
  by (induction vs) auto

lemma join_group_nonempty:
  assumes "k \<in> set (map (\<lambda>x. x ! i) lrows) \<union> set (map (\<lambda>x. x ! j) rrows)"
  shows "1 \<le> length (join_group i j nl nr lrows rrows k)"
proof -
  let ?a = "length (filter (\<lambda>x. x ! i = k) lrows)" and ?b = "length (filter (\<lambda>x. x ! j = k) rrows)"
  have "0 < ?a \<or> 0 < ?b"
    using assms length_filter_pos [of k "map (\<lambda>x. x ! i) lrows"]
      length_filter_pos [of k "map (\<lambda>x. x ! j) rrows"]
    unfolding length_filter_key by blast
  moreover have "0 < ?a \<Longrightarrow> 0 < ?b \<Longrightarrow> 0 < ?a * ?b" by simp
  ultimately show ?thesis unfolding length_join_group Let_def by (auto simp: Suc_le_eq)
qed

lemma join_group_single:
  assumes "k \<in> set (map (\<lambda>x. x ! i) lrows) \<union> set (map (\<lambda>x. x ! j) rrows)"
    and "distinct (map (\<lambda>x. x ! i) lrows)" and "distinct (map (\<lambda>x. x ! j) rrows)"
  shows "length (join_group i j nl nr lrows rrows k) = 1"
proof -
  let ?a = "length (filter (\<lambda>x. x ! i = k) lrows)" and ?b = "length (filter (\<lambda>x. x ! j = k) rrows)"
  have a: "?a = (if k \<in> set (map (\<lambda>x. x ! i) lrows) then 1 else 0)"
    unfolding length_filter_key by (rule length_filter_distinct [OF assms(2)])
  have b: "?b = (if k \<in> set (map (\<lambda>x. x ! j) rrows) then 1 else 0)"
    unfolding length_filter_key by (rule length_filter_distinct [OF assms(3)])
  show ?thesis unfolding length_join_group Let_def a b using assms(1) by auto
qed

lemma sum_list_perm: "mset ys = mset xs \<Longrightarrow> sum_list (map h ys) = (sum_list (map h xs) :: nat)"
proof -
  assume "mset ys = mset xs"
  then have "mset (map h ys) = mset (map h xs)" by simp
  then have "sum_mset (mset (map h ys)) = sum_mset (mset (map h xs))" by simp
  then show ?thesis by (simp only: sum_mset_sum_list)
qed

lemma sum_list_ge_length:
  "(\<And>x. x \<in> set xs \<Longrightarrow> 1 \<le> h x) \<Longrightarrow> length xs \<le> (sum_list (map h xs) :: nat)"
  by (induction xs) (auto simp: Suc_le_eq add_strict_increasing)

lemma sum_list_all_one:
  "(\<And>x. x \<in> set xs \<Longrightarrow> h x = 1) \<Longrightarrow> (sum_list (map h xs) :: nat) = length xs"
  by (induction xs) auto

lemma merge_Inr:
  assumes "locs ''comum'' (columns L) = [i]" and "locs ''comum'' (columns R) = [j]"
    and "suffix_dups (columns L)
           (add_suffix ''_x'' (filter (\<lambda>c. c \<in> set (drop_at j (columns R))) (columns L)) (columns L)) = []"
    and "suffix_dups (drop_at j (columns R))
           (add_suffix ''_y'' (filter (\<lambda>c. c \<in> set (drop_at j (columns R))) (columns L))
              (drop_at j (columns R))) = []"
  shows "merge key_order L R =
     Inr \<lparr>columns =
       add_suffix ''_x'' (filter (\<lambda>c. c \<in> set (drop_at j (columns R))) (columns L)) (columns L)
       @ add_suffix ''_y'' (filter (\<lambda>c. c \<in> set (drop_at j (columns R))) (columns L))
           (drop_at j (columns R)),
     rows = concat (map
        (join_group i j (length (columns L)) (length (drop_at j (columns R))) (rows L) (rows R))
        (key_order (unique (map (\<lambda>r. r ! i) (rows L) @ map (\<lambda>r. r ! j) (rows R)))))\<rparr>"
  using assms by (simp add: merge_def Let_def)

lemma mset_concat_perm:
  assumes "mset ys = mset xs"
  shows "mset (concat (map g ys)) = mset (concat (map g xs))"
proof -
  have "mset (map (\<lambda>x. mset (g x)) ys) = mset (map (\<lambda>x. mset (g x)) xs)"
    using assms by simp
  then have "sum_mset (mset (map (\<lambda>x. mset (g x)) ys)) = sum_mset (mset (map (\<lambda>x. mset (g x)) xs))"
    by simp
  then have "sum_list (map (\<lambda>x. mset (g x)) ys) = sum_list (map (\<lambda>x. mset (g x)) xs)"
    by (simp only: sum_mset_sum_list)
  then show ?thesis by (simp add: mset_concat comp_def)
qed

lemma merge_not_MissingColumnError: "merge key_order L R \<noteq> Inl MissingColumnError"
  by (simp add: merge_def Let_def)

lemma transfer_never_MissingColumnError:
  "transfer py key_order arquivo1 arquivo2 c1 c2 \<noteq> Inl MissingColumnError"
proof (cases "normalize_df py arquivo1 c1")
  case (Inl e)
  then have "e \<noteq> MissingColumnError" using normalize_error by fastforce
  then show ?thesis using Inl by (simp add: transfer_def)
next
  case n1: (Inr df1)
  show ?thesis
  proof (cases "normalize_df py arquivo2 c2")
    case (Inl e)
    then have "e \<noteq> MissingColumnError" using normalize_error by fastforce
    then show ?thesis using Inl n1 by (simp add: transfer_def)
  next
    case n2: (Inr df2)
    obtain i where i: "locs ''comum'' (columns df1) = [i]"
      using normalize_InrD [OF n1] by auto
    obtain j where j: "locs ''comum'' (columns df2) = [j]"
      using normalize_InrD [OF n2] by auto
    obtain vals where v: "cidades_comum df2 = Inr vals" using cidades_comum_Inr [OF j] by blast
    obtain f1 where f1: "filtrado df1 vals = Inr f1" using filtrado_Inr [OF i, of vals] by blast
    obtain f2 where f2: "filtrado df2 vals = Inr f2" using filtrado_Inr [OF j, of vals] by blast
    show ?thesis
      unfolding transfer_normalized [OF n1 n2 f1 f2 v]
      using merge_not_MissingColumnError [of key_order f1 f2] by simp
  qed
qed

lemma transfer_missing_key_KeyError:
  assumes "c1 \<notin> set (columns arquivo1)" and "''comum'' \<notin> set (columns arquivo1)"
  shows "transfer py key_order arquivo1 arquivo2 c1 c2 = Inl KeyError"
proof -
  have "map (\<lambda>c. if c = c1 then ''comum'' else c) (columns arquivo1) = columns arquivo1"
  proof (rule map_idI)
    fix c assume "c \<in> set (columns arquivo1)"
    then have "c \<noteq> c1" using assms(1) by blast
    then show "(if c = c1 then ''comum'' else c) = c" by simp
  qed
  then have "''comum'' \<notin> set (columns (rename arquivo1 c1 ''comum''))" using assms(2) by simp
  then have "locs ''comum'' (columns (rename arquivo1 c1 ''comum'')) = []"
    using locs_Nil_iff by blast
  then have "normalize_df py arquivo1 c1 = Inl KeyError" by (rule normalize_Inl(1))
  then show ?thesis by (simp add: transfer_def)
qed

lemma merge_result_shape:
  assumes "rectangular L" and "rectangular R" and "merge key_order L R = Inr res"
  shows "\<exists>i j common.
     locs ''comum'' (columns L) = [i] \<and> locs ''comum'' (columns R) = [j] \<and>
     set common = set (columns L) \<inter> (set (columns R) - {''comum''}) \<and>
     columns res = add_suffix ''_x'' common (columns L)
                   @ add_suffix ''_y'' common (drop_at j (columns R)) \<and>
     length (columns res) = length (columns L) + length (columns R) - 1 \<and>
     locs ''comum'' (columns res) = [i] \<and>
     (\<forall>c \<in> set common. c @ ''_x'' \<in> set (columns res) \<and> c @ ''_y'' \<in> set (columns res)) \<and>
     (\<forall>c \<in> (set (columns L) \<union> set (columns R)) - set common. c \<in> set (columns res)) \<and>
     (\<forall>r \<in> set (rows res).
        length r = length (columns res) \<and>
        (r ! i \<notin> (\<lambda>x. x ! j) ` set (rows R) \<longrightarrow>
           drop (length (columns L)) r = replicate (length (columns R) - 1) NaN) \<and>
        (r ! i \<notin> (\<lambda>x. x ! i) ` set (rows L) \<longrightarrow>
           (\<forall>n<length (columns L). n \<noteq> i \<longrightarrow> r ! n = NaN)))"
proof -
  let ?lc = "columns L" and ?rc = "columns R"
  obtain i j where i: "locs ''comum'' ?lc = [i]" and j: "locs ''comum'' ?rc = [j]"
    and cols: "columns res =
       add_suffix ''_x'' (filter (\<lambda>c. c \<in> set (drop_at j ?rc)) ?lc) ?lc
       @ add_suffix ''_y'' (filter (\<lambda>c. c \<in> set (drop_at j ?rc)) ?lc) (drop_at j ?rc)"
    and rws: "rows res = concat (map
        (join_group i j (length ?lc) (length (drop_at j ?rc)) (rows L) (rows R))
        (key_order (unique (map (\<lambda>r. r ! i) (rows L) @ map (\<lambda>r. r ! j) (rows R)))))"
    using merge_InrD [OF assms(3)] by blast
  let ?rcols = "drop_at j ?rc"
  let ?common = "filter (\<lambda>c. c \<in> set ?rcols) ?lc"
  let ?ll = "add_suffix ''_x'' ?common ?lc" and ?rl = "add_suffix ''_y'' ?common ?rcols"
  have il: "i < length ?lc" and ic: "?lc ! i = ''comum''"
    by (rule locs_singleD(1) [OF i], rule locs_singleD(2) [OF i])
  have iu: "\<And>m. m < length ?lc \<Longrightarrow> ?lc ! m = ''comum'' \<Longrightarrow> m = i"
    by (rule locs_singleD(3) [OF i])
  have jl: "j < length ?rc" by (rule locs_singleD(1) [OF j])
  have srcols: "set ?rcols = set ?rc - {''comum''}" by (rule set_drop_at_locs [OF j])
  have lrcols: "length ?rcols = length ?rc - 1" by (rule length_drop_at [OF jl])
  have sc: "set ?common = set ?lc \<inter> (set ?rc - {''comum''})" using srcols by auto
  have ncm: "''comum'' \<notin> set ?common" using sc by simp
  have len: "length (columns res) = length ?lc + length ?rc - 1"
    using cols lrcols jl by simp
  have lk: "locs ''comum'' (columns res) = [i]"
  proof (rule locs_unique)
    show "i < length (columns res)" using cols il by simp
    show "columns res ! i = ''comum''"
      using cols il ic ncm by (simp add: nth_append add_suffix_nth)
    fix m assume m: "m < length (columns res)" "columns res ! m = ''comum''"
    show "m = i"
    proof (cases "m < length ?lc")
      case True
      then have "(if ?lc ! m \<in> set ?common then ?lc ! m @ ''_x'' else ?lc ! m) = ''comum''"
        using m(2) cols by (simp add: nth_append add_suffix_nth)
      then have "?lc ! m = ''comum''" using suffix_not_comum(1) by (metis (full_types))
      then show ?thesis using iu True by blast
    next
      case False
      let ?n = "m - length ?lc"
      have n: "?n < length ?rcols" using False m(1) cols by simp
      have "columns res ! m = ?rl ! ?n" using False cols by (simp add: nth_append)
      then have "(if ?rcols ! ?n \<in> set ?common then ?rcols ! ?n @ ''_y'' else ?rcols ! ?n) = ''comum''"
        using m(2) n by (simp add: add_suffix_nth)
      then have "?rcols ! ?n = ''comum''" using suffix_not_comum(2) by (metis (full_types))
      then have "''comum'' \<in> set ?rcols" using n by (metis nth_mem)
      then show ?thesis using srcols by simp
    qed
  qed
  have sres: "set (columns res) = set ?ll \<union> set ?rl"
    by (simp only: cols set_append)
  have cm: "\<forall>c \<in> set ?common. c @ ''_x'' \<in> set (columns res) \<and> c @ ''_y'' \<in> set (columns res)"
  proof
    fix c assume c: "c \<in> set ?common"
    then have cl: "c \<in> set ?lc" and cr: "c \<in> set ?rcols" by simp_all
    have "c @ ''_x'' \<in> set ?ll" by (rule add_suffix_in [OF cl c])
    moreover have "c @ ''_y'' \<in> set ?rl" by (rule add_suffix_in [OF cr c])
    ultimately show "c @ ''_x'' \<in> set (columns res) \<and> c @ ''_y'' \<in> set (columns res)"
      unfolding sres by blast
  qed
  have oth: "\<forall>c \<in> (set ?lc \<union> set ?rc) - set ?common. c \<in> set (columns res)"
  proof
    fix c assume c: "c \<in> (set ?lc \<union> set ?rc) - set ?common"
    then have nc: "c \<notin> set ?common" by blast
    show "c \<in> set (columns res)"
    proof (cases "c \<in> set ?lc")
      case True
      then have "c \<in> set ?ll" using nc by (rule add_suffix_keep)
      then show ?thesis unfolding sres by blast
    next
      case False
      then have "c \<in> set ?rc" using c by blast
      moreover have "c \<noteq> ''comum''" using False ic il by (metis nth_mem)
      ultimately have "c \<in> set ?rcols" unfolding srcols by blast
      then have "c \<in> set ?rl" using nc by (rule add_suffix_keep)
      then show ?thesis unfolding sres by blast
    qed
  qed
  have rw: "\<forall>r \<in> set (rows res).
        length r = length (columns res) \<and>
        (r ! i \<notin> (\<lambda>x. x ! j) ` set (rows R) \<longrightarrow>
           drop (length ?lc) r = replicate (length ?rc - 1) NaN) \<and>
        (r ! i \<notin> (\<lambda>x. x ! i) ` set (rows L) \<longrightarrow>
           (\<forall>n<length ?lc. n \<noteq> i \<longrightarrow> r ! n = NaN))"
  proof
    fix r assume "r \<in> set (rows res)"
    then obtain k where k: "r \<in> set (join_group i j (length ?lc) (length ?rcols) (rows L) (rows R) k)"
      using rws by auto
    have a2: "\<forall>l \<in> set (rows L). length l = length ?lc"
      using rectangular_rows [OF assms(1)] by blast
    have sl: "Suc (length ?rcols) = length ?rc" using lrcols jl by arith
    have a3: "\<forall>x \<in> set (rows R). length x = Suc (length ?rcols)"
      unfolding sl using rectangular_rows [OF assms(2)] by blast
    have a5: "j < Suc (length ?rcols)" using lrcols jl by simp
    note g = join_group_row [OF k a2 a3 il a5]
    have g1: "length r = length ?lc + length ?rcols" using g by (elim conjE)
    have g2: "r ! i = k" using g by (elim conjE)
    have g3: "k \<notin> (\<lambda>x. x ! j) ` set (rows R) \<longrightarrow> drop (length ?lc) r = replicate (length ?rcols) NaN"
      using g by (elim conjE)
    have g4: "k \<notin> (\<lambda>x. x ! i) ` set (rows L) \<longrightarrow> (\<forall>n<length ?lc. n \<noteq> i \<longrightarrow> r ! n = NaN)"
      using g by (elim conjE)
    have "length r = length (columns res)" using g1 cols by simp
    then show "length r = length (columns res) \<and>
        (r ! i \<notin> (\<lambda>x. x ! j) ` set (rows R) \<longrightarrow>
           drop (length ?lc) r = replicate (length ?rc - 1) NaN) \<and>
        (r ! i \<notin> (\<lambda>x. x ! i) ` set (rows L) \<longrightarrow>
           (\<forall>n<length ?lc. n \<noteq> i \<longrightarrow> r ! n = NaN))"
      using g2 g3 g4 lrcols by simp
  qed
  show ?thesis
  proof (intro exI conjI)
    show "locs ''comum'' ?lc = [i]" by (rule i)
    show "locs ''comum'' ?rc = [j]" by (rule j)
    show "set ?common = set ?lc \<inter> (set ?rc - {''comum''})" by (rule sc)
    show "columns res = ?ll @ ?rl" by (rule cols)
    show "length (columns res) = length ?lc + length ?rc - 1" by (rule len)
    show "locs ''comum'' (columns res) = [i]" by (rule lk)
    show "\<forall>c \<in> set ?common. c @ ''_x'' \<in> set (columns res) \<and> c @ ''_y'' \<in> set (columns res)"
      by (rule cm)
    show "\<forall>c \<in> (set ?lc \<union> set ?rc) - set ?common. c \<in> set (columns res)" by (rule oth)
    show "\<forall>r \<in> set (rows res).
        length r = length (columns res) \<and>
        (r ! i \<notin> (\<lambda>x. x ! j) ` set (rows R) \<longrightarrow>
           drop (length ?lc) r = replicate (length ?rc - 1) NaN) \<and>
        (r ! i \<notin> (\<lambda>x. x ! i) ` set (rows L) \<longrightarrow>
           (\<forall>n<length ?lc. n \<noteq> i \<longrightarrow> r ! n = NaN))" by (rule rw)
  qed
qed

lemma merge_row_count:
  assumes "rectangular L" and "rectangular R"
    and "\<forall>ks. mset (key_order ks) = mset ks"
    and "merge key_order L R = Inr res"
  shows "\<exists>i j lk rk.
     locs ''comum'' (columns L) = [i] \<and> locs ''comum'' (columns R) = [j] \<and>
     lk = map (\<lambda>r. r ! i) (rows L) \<and> rk = map (\<lambda>r. r ! j) (rows R) \<and>
     max (card (set lk)) (card (set rk)) \<le> length (rows res) \<and>
     card (set lk \<union> set rk) \<le> length (rows res) \<and>
     (distinct lk \<and> distinct rk \<longrightarrow> length (rows res) = card (set lk \<union> set rk)) \<and>
     (distinct lk \<and> distinct rk \<and> (set lk \<subseteq> set rk \<or> set rk \<subseteq> set lk) \<longrightarrow>
        length (rows res) = max (card (set lk)) (card (set rk))) \<and>
     (\<forall>k \<in> set lk \<union> set rk. \<exists>r \<in> set (rows res). r ! i = k)"
proof -
  let ?lc = "columns L" and ?rc = "columns R"
  obtain i j where i: "locs ''comum'' ?lc = [i]" and j: "locs ''comum'' ?rc = [j]"
    and rws: "rows res = concat (map
        (join_group i j (length ?lc) (length (drop_at j ?rc)) (rows L) (rows R))
        (key_order (unique (map (\<lambda>r. r ! i) (rows L) @ map (\<lambda>r. r ! j) (rows R)))))"
    using merge_InrD [OF assms(4)] by blast
  let ?lk = "map (\<lambda>r. r ! i) (rows L)" and ?rk = "map (\<lambda>r. r ! j) (rows R)"
  let ?ks = "unique (?lk @ ?rk)"
  let ?G = "join_group i j (length ?lc) (length (drop_at j ?rc)) (rows L) (rows R)"
  let ?h = "\<lambda>k. length (?G k)"
  have perm: "mset (key_order ?ks) = mset ?ks" using assms(3) by blast
  have sks: "set ?ks = set ?lk \<union> set ?rk" by simp
  have dks: "distinct ?ks" by simp
  have lks: "length ?ks = card (set ?lk \<union> set ?rk)"
    using distinct_card [OF dks] sks by simp
  have len: "length (rows res) = sum_list (map ?h ?ks)"
  proof -
    have "length (rows res) = sum_list (map ?h (key_order ?ks))"
      unfolding rws by (simp add: length_concat comp_def)
    also have "\<dots> = sum_list (map ?h ?ks)" by (rule sum_list_perm [OF perm])
    finally show ?thesis .
  qed
  have ge1: "\<And>k. k \<in> set ?ks \<Longrightarrow> 1 \<le> ?h k"
  proof -
    fix k assume "k \<in> set ?ks"
    then have "k \<in> set ?lk \<union> set ?rk" unfolding sks .
    then show "1 \<le> ?h k" by (rule join_group_nonempty)
  qed
  have c1: "card (set ?lk \<union> set ?rk) \<le> length (rows res)"
    unfolding len lks [symmetric] by (rule sum_list_ge_length [OF ge1])
  have "card (set ?lk) \<le> card (set ?lk \<union> set ?rk)" by (simp add: card_mono)
  moreover have "card (set ?rk) \<le> card (set ?lk \<union> set ?rk)" by (simp add: card_mono)
  ultimately have c2: "max (card (set ?lk)) (card (set ?rk)) \<le> length (rows res)"
    using c1 by simp
  have c3: "distinct ?lk \<and> distinct ?rk \<longrightarrow> length (rows res) = card (set ?lk \<union> set ?rk)"
  proof
    assume d: "distinct ?lk \<and> distinct ?rk"
    have "\<And>k. k \<in> set ?ks \<Longrightarrow> ?h k = 1"
    proof -
      fix k assume "k \<in> set ?ks"
      then have "k \<in> set ?lk \<union> set ?rk" unfolding sks .
      then show "?h k = 1" using d by (simp only: join_group_single)
    qed
    then have "sum_list (map ?h ?ks) = length ?ks" by (rule sum_list_all_one)
    then show "length (rows res) = card (set ?lk \<union> set ?rk)" using len lks by simp
  qed
  have c4: "distinct ?lk \<and> distinct ?rk \<and> (set ?lk \<subseteq> set ?rk \<or> set ?rk \<subseteq> set ?lk) \<longrightarrow>
        length (rows res) = max (card (set ?lk)) (card (set ?rk))"
  proof
    assume d: "distinct ?lk \<and> distinct ?rk \<and> (set ?lk \<subseteq> set ?rk \<or> set ?rk \<subseteq> set ?lk)"
    then have e: "length (rows res) = card (set ?lk \<union> set ?rk)" using c3 by blast
    from d have "set ?lk \<subseteq> set ?rk \<or> set ?rk \<subseteq> set ?lk" by blast
    then show "length (rows res) = max (card (set ?lk)) (card (set ?rk))"
    proof
      assume s: "set ?lk \<subseteq> set ?rk"
      then have "set ?lk \<union> set ?rk = set ?rk" by blast
      moreover have "card (set ?lk) \<le> card (set ?rk)" using s by (simp add: card_mono)
      ultimately show ?thesis using e by (simp add: max_def)
    next
      assume s: "set ?rk \<subseteq> set ?lk"
      then have "set ?lk \<union> set ?rk = set ?lk" by blast
      moreover have "card (set ?rk) \<le> card (set ?lk)" using s by (simp add: card_mono)
      ultimately show ?thesis using e by (simp add: max_def)
    qed
  qed
  have il: "i < length ?lc" by (rule locs_singleD(1) [OF i])
  have jl: "j < length ?rc" by (rule locs_singleD(1) [OF j])
  have sl: "Suc (length (drop_at j ?rc)) = length ?rc" using length_drop_at [OF jl] jl by arith
  have a2: "\<forall>l \<in> set (rows L). length l = length ?lc"
    using rectangular_rows [OF assms(1)] by blast
  have a3: "\<forall>x \<in> set (rows R). length x = Suc (length (drop_at j ?rc))"
    unfolding sl using rectangular_rows [OF assms(2)] by blast
  have a5: "j < Suc (length (drop_at j ?rc))" unfolding sl by (rule jl)
  have c5: "\<forall>k \<in> set ?lk \<union> set ?rk. \<exists>r \<in> set (rows res). r ! i = k"
  proof
    fix k assume k: "k \<in> set ?lk \<union> set ?rk"
    then have "1 \<le> length (?G k)" by (rule join_group_nonempty)
    then have "?G k \<noteq> []" by auto
    then obtain r where r: "r \<in> set (?G k)" by (cases "?G k") auto
    have "r ! i = k" using join_group_row [OF r a2 a3 il a5] by (elim conjE)
    moreover have "k \<in> set (key_order ?ks)" using k sks perm by (metis set_mset_mset)
    then have "r \<in> set (rows res)" unfolding rws using r by auto
    ultimately show "\<exists>r \<in> set (rows res). r ! i = k" by blast
  qed
  show ?thesis
  proof (intro exI conjI)
    show "locs ''comum'' ?lc = [i]" by (rule i)
    show "locs ''comum'' ?rc = [j]" by (rule j)
    show "?lk = map (\<lambda>r. r ! i) (rows L)" by (rule refl)
    show "?rk = map (\<lambda>r. r ! j) (rows R)" by (rule refl)
    show "max (card (set ?lk)) (card (set ?rk)) \<le> length (rows res)" by (rule c2)
    show "card (set ?lk \<union> set ?rk) \<le> length (rows res)" by (rule c1)
    show "distinct ?lk \<and> distinct ?rk \<longrightarrow> length (rows res) = card (set ?lk \<union> set ?rk)"
      by (rule c3)
    show "distinct ?lk \<and> distinct ?rk \<and> (set ?lk \<subseteq> set ?rk \<or> set ?rk \<subseteq> set ?lk) \<longrightarrow>
        length (rows res) = max (card (set ?lk)) (card (set ?rk))" by (rule c4)
    show "\<forall>k \<in> set ?lk \<union> set ?rk. \<exists>r \<in> set (rows res). r ! i = k" by (rule c5)
  qed
qed


lemma suffix_dups_distinct: "distinct labels \<Longrightarrow> suffix_dups orig labels = []"
proof -
  assume d: "distinct labels"
  have "\<And>n. n < length labels \<Longrightarrow> labels ! n \<notin> set (take n labels)"
  proof
    fix n assume n: "n < length labels" and "labels ! n \<in> set (take n labels)"
    then obtain k where k: "k < length (take n labels)" "take n labels ! k = labels ! n"
      by (auto simp: in_set_conv_nth)
    then have "k < n" "labels ! k = labels ! n" by simp_all
    moreover have "k < length labels" using \<open>k < n\<close> n by simp
    ultimately have "k = n" using d n nth_eq_iff_index_eq by blast
    then show False using \<open>k < n\<close> by simp
  qed
  then have "filter (\<lambda>i. labels ! i \<in> set (take i labels) \<and> orig ! i \<notin> set (take i orig))
               [0..<length labels] = []"
    by (simp add: filter_empty_conv)
  then show ?thesis by (simp add: suffix_dups_def)
qed

lemma suffix_x_not_y: "c @ ''_x'' \<noteq> c' @ ''_y''"
proof
  assume "c @ ''_x'' = c' @ ''_y''"
  then have "last (c @ ''_x'') = last (c' @ ''_y'')" by simp
  then show False by simp
qed

lemma distinct_add_suffix:
  assumes "distinct cs" and "\<forall>c \<in> set tr. c @ suf \<notin> set cs"
  shows "distinct (add_suffix suf tr cs)"
proof -
  have "inj_on (\<lambda>c. if c \<in> set tr then c @ suf else c) (set cs)"
  proof (rule inj_onI)
    fix a b assume a: "a \<in> set cs" and b: "b \<in> set cs"
      and e: "(if a \<in> set tr then a @ suf else a) = (if b \<in> set tr then b @ suf else b)"
    show "a = b"
    proof (cases "a \<in> set tr")
      case ta: True
      show ?thesis
      proof (cases "b \<in> set tr")
        case True then show ?thesis using ta e by simp
      next
        case False
        then have "a @ suf = b" using ta e by simp
        then have "a @ suf \<in> set cs" using b by simp
        then show ?thesis using assms(2) ta by blast
      qed
    next
      case fa: False
      show ?thesis
      proof (cases "b \<in> set tr")
        case True
        then have "b @ suf = a" using fa e by simp
        then have "b @ suf \<in> set cs" using a by simp
        then show ?thesis using assms(2) True by blast
      next
        case False then show ?thesis using fa e by simp
      qed
    qed
  qed
  then show ?thesis using assms(1) by (simp add: add_suffix_def distinct_map)
qed

lemma distinct_drop_at: "distinct xs \<Longrightarrow> distinct (drop_at j xs)"
proof -
  assume d: "distinct xs"
  have "distinct (take j xs @ drop j xs)" using d by simp
  then have "distinct (take j xs)" "distinct (drop j xs)"
    "set (take j xs) \<inter> set (drop j xs) = {}" by (simp_all only: distinct_append)
  moreover have "distinct (drop (Suc j) xs)" using d by simp
  moreover have "set (drop (Suc j) xs) \<subseteq> set (drop j xs)" by (rule set_drop_subset_set_drop) simp
  ultimately show ?thesis by (auto simp: drop_at_def)
qed

lemma merged_labels_distinct:
  assumes "distinct lc" and "distinct rcols"
    and "set common = set lc \<inter> set rcols"
    and "\<forall>c \<in> set common. c @ ''_x'' \<notin> set lc \<union> set rcols \<and> c @ ''_y'' \<notin> set lc \<union> set rcols"
  shows "distinct (add_suffix ''_x'' common lc @ add_suffix ''_y'' common rcols)"
proof -
  have dl: "distinct (add_suffix ''_x'' common lc)"
    using assms(1,4) by (intro distinct_add_suffix) auto
  have dr: "distinct (add_suffix ''_y'' common rcols)"
    using assms(2,4) by (intro distinct_add_suffix) auto
  have "set (add_suffix ''_x'' common lc) \<inter> set (add_suffix ''_y'' common rcols) = {}"
  proof (rule ccontr)
    assume "set (add_suffix ''_x'' common lc) \<inter> set (add_suffix ''_y'' common rcols) \<noteq> {}"
    then obtain z where z1: "z \<in> set (add_suffix ''_x'' common lc)"
      and z2: "z \<in> set (add_suffix ''_y'' common rcols)" by blast
    obtain a where a: "a \<in> set lc" "z = (if a \<in> set common then a @ ''_x'' else a)"
      using z1 by (auto simp: set_add_suffix)
    obtain b where b: "b \<in> set rcols" "z = (if b \<in> set common then b @ ''_y'' else b)"
      using z2 by (auto simp: set_add_suffix)
    show False
    proof (cases "a \<in> set common")
      case ta: True
      show ?thesis
      proof (cases "b \<in> set common")
        case True
        then have "a @ ''_x'' = b @ ''_y''" using a(2) b(2) ta by simp
        then show ?thesis using suffix_x_not_y by blast
      next
        case False
        then have "a @ ''_x'' = b" using a(2) b(2) ta by simp
        then have "a @ ''_x'' \<in> set rcols" using b(1) by simp
        then show ?thesis using assms(4) ta by blast
      qed
    next
      case fa: False
      show ?thesis
      proof (cases "b \<in> set common")
        case True
        then have "b @ ''_y'' = a" using a(2) b(2) fa by simp
        then have "b @ ''_y'' \<in> set lc" using a(1) by simp
        then show ?thesis using assms(4) True by blast
      next
        case False
        then have "a = b" using a(2) b(2) fa by simp
        then have "a \<in> set lc \<inter> set rcols" using a(1) b(1) by simp
        then show ?thesis using fa assms(3) by simp
      qed
    qed
  qed
  then show ?thesis using dl dr by simp
qed

lemma merge_cases:
  assumes "locs ''comum'' (columns L) = [i]" and "locs ''comum'' (columns R) = [j]"
  shows "merge key_order L R = Inl MergeError \<or> (\<exists>res. merge key_order L R = Inr res)"
  using assms by (simp add: merge_def Let_def)

lemma ne_set_empty: "x \<in> set xs \<Longrightarrow> xs \<noteq> []"
  by (cases xs) simp_all

lemma join_group_pair:
  assumes "l \<in> set lrows" and "l ! i = k" and "r \<in> set rrows" and "r ! j = k"
  shows "l @ drop_at j r \<in> set (join_group i j nl nr lrows rrows k)"
proof -
  let ?ls = "filter (\<lambda>x. x ! i = k) lrows" and ?rs = "filter (\<lambda>x. x ! j = k) rrows"
  have l: "l \<in> set ?ls" using assms(1,2) by simp
  have r: "r \<in> set ?rs" using assms(3,4) by simp
  have ne1: "?ls \<noteq> []" using l by (rule ne_set_empty)
  have ne2: "?rs \<noteq> []" using r by (rule ne_set_empty)
  have "l @ drop_at j r \<in> set (concat (map (\<lambda>l. map (\<lambda>r. l @ drop_at j r) ?rs) ?ls))"
    using l r by auto
  then show ?thesis using ne1 ne2 by (simp add: join_group_def Let_def)
qed

lemma transfer_Inr_normalize:
  assumes "transfer py key_order a1 a2 c1 c2 = Inr res"
  shows "\<exists>df1 df2. normalize_df py a1 c1 = Inr df1 \<and> normalize_df py a2 c2 = Inr df2"
proof (cases "normalize_df py a1 c1")
  case (Inl e)
  then have "transfer py key_order a1 a2 c1 c2 = Inl e" by (simp add: transfer_def)
  then show ?thesis using assms by simp
next
  case i1: (Inr df1)
  show ?thesis
  proof (cases "normalize_df py a2 c2")
    case (Inl e)
    then have "transfer py key_order a1 a2 c1 c2 = Inl e" using i1 by (simp add: transfer_def)
    then show ?thesis using assms by simp
  next
    case (Inr df2)
    then show ?thesis using i1 by simp
  qed
qed

lemma rectangular_normalize:
  assumes "rectangular df" and "normalize_df py df col = Inr d"
  shows "rectangular d"
proof -
  obtain i where c: "columns d = columns (rename df col ''comum'')"
    and r: "rows d = map (\<lambda>r. r[i := clean py (r ! i)]) (rows df)"
    using normalize_keys [OF assms] by blast
  have "\<forall>x \<in> set (rows df). length x = length (columns df)"
    using assms(1) by (simp add: rectangular_def list_all_iff)
  then show ?thesis unfolding rectangular_def list_all_iff r c by simp
qed

lemma handler_pipeline:
  assumes r1: "rectangular a1" and r2: "rectangular a2"
    and n1: "normalize_df py a1 c1 = Inr df1" and n2: "normalize_df py a2 c2 = Inr df2"
  shows "\<exists>i j vals L.
     locs ''comum'' (columns df1) = [i] \<and> locs ''comum'' (columns df2) = [j] \<and>
     cidades_comum df2 = Inr vals \<and> set vals = (\<lambda>r. r ! j) ` set (rows df2) \<and>
     filtrado df1 vals = Inr L \<and> filtrado df2 vals = Inr df2 \<and>
     columns L = columns df1 \<and> rows L = filter (\<lambda>r. r ! i \<in> set vals) (rows df1) \<and>
     rectangular L \<and> rectangular df2 \<and>
     transfer py key_order a1 a2 c1 c2 =
       (if rows L = [] then Inl EmptyResultError else merge key_order L df2)"
proof -
  obtain i where i: "locs ''comum'' (columns df1) = [i]"
    using normalize_keys [OF r1 n1] by blast
  obtain j where j: "locs ''comum'' (columns df2) = [j]"
    and k: "map (\<lambda>r. r ! j) (rows df2) = map (\<lambda>r. clean py (r ! j)) (rows a2)"
    using normalize_keys [OF r2 n2] by blast
  let ?s = "map (\<lambda>r. r ! j) (rows df2)"
  let ?vals = "unique (dropna ?s)"
  let ?L = "\<lparr>columns = columns df1, rows = filter (\<lambda>r. r ! i \<in> set ?vals) (rows df1)\<rparr>"
  have v: "cidades_comum df2 = Inr ?vals" by (rule cidades_comum_Inr [OF j])
  have nn: "NaN \<notin> set ?s" unfolding k by (auto simp: clean_def)
  have sv: "set ?vals = (\<lambda>r. r ! j) ` set (rows df2)" using nn by auto
  have "filter (\<lambda>r. r ! j \<in> set ?vals) (rows df2) = rows df2"
  proof (rule filter_True)
    show "\<forall>r\<in>set (rows df2). r ! j \<in> set ?vals" unfolding sv by blast
  qed
  then have f2: "filtrado df2 ?vals = Inr df2" using filtrado_Inr [OF j, of ?vals] by simp
  have f1: "filtrado df1 ?vals = Inr ?L" by (rule filtrado_Inr [OF i])
  have rd1: "rectangular df1" by (rule rectangular_normalize [OF r1 n1])
  have rd2: "rectangular df2" by (rule rectangular_normalize [OF r2 n2])
  have rl: "rectangular ?L" using rd1 by (simp add: rectangular_def list_all_iff)
  have t: "transfer py key_order a1 a2 c1 c2 =
       (if rows ?L = [] then Inl EmptyResultError else merge key_order ?L df2)"
    by (rule transfer_normalized [OF n1 n2 f1 f2 v])
  have cl: "columns ?L = columns df1" by simp
  have rw: "rows ?L = filter (\<lambda>r. r ! i \<in> set ?vals) (rows df1)" by simp
  show ?thesis
    by (intro exI conjI) (rule i, rule j, rule v, rule sv, rule f1, rule f2, rule cl, rule rw,
        rule rl, rule rd2, rule t)
qed

lemma merge_pair_row:
  assumes p: "\<forall>ks. mset (key_order ks) = mset ks"
    and m: "merge key_order L R = Inr res"
    and i: "locs ''comum'' (columns L) = [i]" and j: "locs ''comum'' (columns R) = [j]"
    and l: "l \<in> set (rows L)" and r: "r \<in> set (rows R)" and e: "l ! i = r ! j"
  shows "l @ drop_at j r \<in> set (rows res)"
proof -
  obtain i' j' where i': "locs ''comum'' (columns L) = [i']"
    and j': "locs ''comum'' (columns R) = [j']"
    and rw: "rows res = concat (map
        (join_group i' j' (length (columns L)) (length (drop_at j' (columns R))) (rows L) (rows R))
        (key_order (unique (map (\<lambda>r. r ! i') (rows L) @ map (\<lambda>r. r ! j') (rows R)))))"
    using merge_InrD [OF m] by blast
  have ii: "i' = i" using i i' by simp
  have jj: "j' = j" using j j' by simp
  let ?ks = "unique (map (\<lambda>r. r ! i) (rows L) @ map (\<lambda>r. r ! j) (rows R))"
  let ?G = "join_group i j (length (columns L)) (length (drop_at j (columns R))) (rows L) (rows R)"
  have rw': "rows res = concat (map ?G (key_order ?ks))" using rw unfolding ii jj .
  have "l ! i \<in> set ?ks" using l by simp
  moreover have "set (key_order ?ks) = set ?ks" using p by (metis set_mset_mset)
  ultimately have k: "l ! i \<in> set (key_order ?ks)" by simp
  have g: "l @ drop_at j r \<in> set (?G (l ! i))"
    by (rule join_group_pair [OF l refl r e [symmetric]])
  show ?thesis unfolding rw' using k g by auto
qed

section \<open>Normalisation of the key column\<close>

text \<open>
  Claim C1, as amended. Let \<open>A\<close> be a table with distinct column labels and rectangular
  rows, and \<open>ka\<close> one of its labels. If no other column of \<open>A\<close> is already labelled
  \<^verbatim>\<open>comum\<close>, normalisation succeeds: the column \<open>ka\<close> keeps its position and is
  relabelled \<^verbatim>\<open>comum\<close> (the label \<open>ka\<close> is gone, no column is added), and in every row
  the cell of that column becomes the string form of the original cell, stripped by
  \<^verbatim>\<open>str.strip()\<close> and then uppercased by \<^verbatim>\<open>str.upper()\<close>; every other cell is
  unchanged. The statement holds for every \<open>py\<close>: the three functions are Python's own, on
  every string, ASCII or not.
\<close>

theorem normalize_key_column:
  assumes "wf_df A" and "ka \<in> set (columns A)"
    and "ka = ''comum'' \<or> ''comum'' \<notin> set (columns A)"
  shows "\<exists>i d. locs ka (columns A) = [i] \<and> normalize_df py A ka = Inr d \<and>
           columns d = (columns A)[i := ''comum''] \<and>
           locs ''comum'' (columns d) = [i] \<and>
           (ka \<noteq> ''comum'' \<longrightarrow> ka \<notin> set (columns d)) \<and>
           length (rows d) = length (rows A) \<and>
           (\<forall>n<length (rows A).
              rows d ! n =
                (rows A ! n)[i := Str (py_upper py (py_strip py
                                    (astype_str (py_str py) (rows A ! n ! i))))] \<and>
              rows d ! n ! i =
                Str (py_upper py (py_strip py (astype_str (py_str py) (rows A ! n ! i)))))"
proof -
  have dist: "distinct (columns A)" and rect: "rectangular A"
    using assms(1) by (auto simp: wf_df_def)
  obtain i where i: "locs ka (columns A) = [i]"
      "map (\<lambda>c. if c = ka then ''comum'' else c) (columns A) = (columns A)[i := ''comum'']"
      "locs ''comum'' ((columns A)[i := ''comum'']) = [i]"
    using rename_locs [OF dist assms(2,3)] by blast
  let ?d = "\<lparr>columns = (columns A)[i := ''comum''],
             rows = map (\<lambda>r. r[i := clean py (r ! i)]) (rows A)\<rparr>"
  have n: "normalize_df py A ka = Inr ?d"
    using normalize_Inr [of A ka i py] i by simp
  have il: "i < length (columns A)" using locs_singleD(1) [OF i(1)] .
  have gone: "ka \<noteq> ''comum'' \<Longrightarrow> ka \<notin> set ((columns A)[i := ''comum''])"
  proof
    assume ne: "ka \<noteq> ''comum''" and "ka \<in> set ((columns A)[i := ''comum''])"
    then obtain k where k: "k < length (columns A)" "(columns A)[i := ''comum''] ! k = ka"
      by (auto simp: in_set_conv_nth)
    then have "k \<noteq> i" using ne il by auto
    then have "columns A ! k = ka" using k by (simp add: nth_list_update)
    then have "k = i" using locs_singleD(3) [OF i(1)] k by simp
    with \<open>k \<noteq> i\<close> show False by simp
  qed
  have cells: "\<forall>n<length (rows A).
      rows ?d ! n =
        (rows A ! n)[i := Str (py_upper py (py_strip py
                            (astype_str (py_str py) (rows A ! n ! i))))] \<and>
      rows ?d ! n ! i =
        Str (py_upper py (py_strip py (astype_str (py_str py) (rows A ! n ! i))))"
  proof (intro allI impI)
    fix n assume n: "n < length (rows A)"
    then have "length (rows A ! n) = length (columns A)"
      using rect by (simp add: rectangular_def list_all_length)
    then have k: "rows ?d ! n ! i = clean py (rows A ! n ! i)"
      using n il by simp
    have r: "rows ?d ! n = (rows A ! n)[i := clean py (rows A ! n ! i)]" using n by simp
    have c: "clean py (rows A ! n ! i)
             = Str (py_upper py (py_strip py (astype_str (py_str py) (rows A ! n ! i))))"
      by (simp add: clean_def)
    have 1: "rows ?d ! n =
        (rows A ! n)[i := Str (py_upper py (py_strip py
                            (astype_str (py_str py) (rows A ! n ! i))))]"
      using r c by (simp only:)
    have 2: "rows ?d ! n ! i =
        Str (py_upper py (py_strip py (astype_str (py_str py) (rows A ! n ! i))))"
      using k c by (simp only:)
    show "rows ?d ! n =
        (rows A ! n)[i := Str (py_upper py (py_strip py
                            (astype_str (py_str py) (rows A ! n ! i))))] \<and>
      rows ?d ! n ! i =
        Str (py_upper py (py_strip py (astype_str (py_str py) (rows A ! n ! i))))"
      by (intro conjI) (rule 1, rule 2)
  qed
  have c: "columns ?d = (columns A)[i := ''comum'']" and len: "length (rows ?d) = length (rows A)"
    by simp_all
  have l: "locs ''comum'' (columns ?d) = [i]" using i(3) by simp
  have g: "ka \<noteq> ''comum'' \<longrightarrow> ka \<notin> set (columns ?d)" using gone by simp
  show ?thesis
    by (intro exI conjI) (rule i(1), rule n, rule c, rule l, rule g, rule len, rule cells)
qed

theorem normalize_key_column_witness:
  "wf_df \<lparr>columns = [''City'', ''Pop''],
          rows = [[Str ''Lisbon'', Other ''500''], [Str '' porto '', Other ''200'']]\<rparr> \<and>
   ''City'' \<in> set [''City'', ''Pop''] \<and>
   (\<exists>d. normalize_df (ascii_py (\<lambda>s. s))
          \<lparr>columns = [''City'', ''Pop''],
           rows = [[Str ''Lisbon'', Other ''500''], [Str '' porto '', Other ''200'']]\<rparr> ''City''
          = Inr d \<and>
        columns d = [''comum'', ''Pop''] \<and>
        rows d ! 0 ! 0 = Str ''LISBON'' \<and> rows d ! 1 ! 0 = Str ''PORTO'')"
proof -
  let ?A = "\<lparr>columns = [''City'', ''Pop''],
             rows = [[Str ''Lisbon'', Other ''500''], [Str '' porto '', Other ''200'']]\<rparr>
            :: string dataframe"
  let ?py = "ascii_py (\<lambda>s. s) :: string python"
  have h1: "wf_df ?A" by (simp add: wf_df_def rectangular_def)
  have h2: "''City'' \<in> set (columns ?A)" by simp
  have h3: "''City'' = ''comum'' \<or> ''comum'' \<notin> set (columns ?A)" by simp
  have l: "locs ''City'' (columns ?A) = [0]" by code_simp
  have s1: "py_upper ?py (py_strip ?py ''Lisbon'') = ''LISBON''" by code_simp
  have s2: "py_upper ?py (py_strip ?py '' porto '') = ''PORTO''" by code_simp
  from normalize_key_column [OF h1 h2 h3, of ?py] obtain i d where
    big: "locs ''City'' (columns ?A) = [i] \<and> normalize_df ?py ?A ''City'' = Inr d \<and>
       columns d = (columns ?A)[i := ''comum''] \<and>
       locs ''comum'' (columns d) = [i] \<and>
       (''City'' \<noteq> ''comum'' \<longrightarrow> ''City'' \<notin> set (columns d)) \<and>
       length (rows d) = length (rows ?A) \<and>
       (\<forall>n<length (rows ?A).
          rows d ! n =
            (rows ?A ! n)[i := Str (py_upper ?py (py_strip ?py
                                (astype_str (py_str ?py) (rows ?A ! n ! i))))] \<and>
          rows d ! n ! i =
            Str (py_upper ?py (py_strip ?py (astype_str (py_str ?py) (rows ?A ! n ! i)))))"
    by (elim exE) (rule that)
  have d1: "locs ''City'' (columns ?A) = [i]" using big by (elim conjE)
  have d2: "normalize_df ?py ?A ''City'' = Inr d" using big by (elim conjE)
  have d3: "columns d = (columns ?A)[i := ''comum'']" using big by (elim conjE)
  have d4: "\<forall>n<length (rows ?A). rows d ! n ! i =
            Str (py_upper ?py (py_strip ?py (astype_str (py_str ?py) (rows ?A ! n ! i))))"
    using big by (elim conjE) blast
  have i: "i = 0" using d1 l by simp
  have "rows d ! 0 ! 0 = Str ''LISBON''" using d4 i s1 by simp
  moreover have "rows d ! 1 ! 0 = Str ''PORTO''" using d4 i s2 by simp
  moreover have "columns d = [''comum'', ''Pop'']" using d3 i by simp
  ultimately show ?thesis using h1 d2 by simp
qed

text \<open>
  The claim as stated, for every table that has the key column, fails when the table also
  has a column labelled \<^verbatim>\<open>comum\<close>: after the renaming two columns carry that label,
  \<^verbatim>\<open>df['comum']\<close> is a DataFrame and \<^verbatim>\<open>.str\<close> raises.
\<close>

theorem normalize_collision_counterexample:
  "wf_df \<lparr>columns = [''City'', ''comum''], rows = [[Str ''Lisbon'', Str ''x'']]\<rparr> \<and>
   ''City'' \<in> set [''City'', ''comum''] \<and>
   normalize_df (ascii_py (\<lambda>s. s))
     \<lparr>columns = [''City'', ''comum''], rows = [[Str ''Lisbon'', Str ''x'']]\<rparr> ''City''
     = Inl AttributeError"
  by code_simp

text \<open>
  Claim C8. If the column labelled \<^verbatim>\<open>comum\<close> of a table (exactly one column carries the
  label) holds only strings that are trimmed and uppercased, that is, strings that
  \<^verbatim>\<open>str.strip()\<close> and \<^verbatim>\<open>str.upper()\<close> leave as they are, normalising the table again
  with key column \<^verbatim>\<open>comum\<close> succeeds and returns the table unchanged. The statement holds
  for every \<open>py\<close>: a string that Python's \<^verbatim>\<open>upper\<close> changes, such as one with a sharp s,
  is not uppercased in this sense.
\<close>

theorem normalize_idempotent:
  assumes "getitem df ''comum'' = Inr (i, s)" and "list_all (normalized_key py) s"
  shows "normalize_df py df ''comum'' = Inr df"
proof -
  have l: "locs ''comum'' (columns df) = [i]" and s: "s = map (\<lambda>r. r ! i) (rows df)"
    using assms(1) by (simp_all add: getitem_Inr_iff)
  have c: "columns (rename df ''comum'' ''comum'') = columns df"
    by (simp add: map_idI)
  have "map (\<lambda>r. r[i := clean py (r ! i)]) (rows df) = rows df"
  proof (rule map_idI)
    fix r assume "r \<in> set (rows df)"
    then have "normalized_key py (r ! i)" using assms(2) s by (simp add: list_all_iff)
    then show "r[i := clean py (r ! i)] = r" by (simp add: clean_normalized)
  qed
  then show ?thesis using normalize_Inr [of df "''comum''" i py] l c by simp
qed

theorem normalize_idempotent_witness:
  "getitem \<lparr>columns = [''comum'', ''Pop''],
            rows = [[Str ''LISBON'', Other ''500''], [Str ''PORTO'', Other ''200'']]\<rparr> ''comum''
     = Inr (0, [Str ''LISBON'', Str ''PORTO'']) \<and>
   list_all (normalized_key (ascii_py (\<lambda>s. s))) [Str ''LISBON'', Str ''PORTO'' :: string cell] \<and>
   normalize_df (ascii_py (\<lambda>s. s)) \<lparr>columns = [''comum'', ''Pop''],
            rows = [[Str ''LISBON'', Other ''500''], [Str ''PORTO'', Other ''200'']]\<rparr> ''comum''
     = Inr \<lparr>columns = [''comum'', ''Pop''],
            rows = [[Str ''LISBON'', Other ''500''], [Str ''PORTO'', Other ''200'']]\<rparr>"
proof -
  let ?N = "\<lparr>columns = [''comum'', ''Pop''],
            rows = [[Str ''LISBON'', Other ''500''], [Str ''PORTO'', Other ''200'']]\<rparr> :: string dataframe"
  have h1: "getitem ?N ''comum'' = Inr (0, [Str ''LISBON'', Str ''PORTO''])" by code_simp
  have h2: "list_all (normalized_key (ascii_py (\<lambda>s. s))) [Str ''LISBON'', Str ''PORTO'' :: string cell]"
    by code_simp
  show ?thesis using h1 h2 normalize_idempotent [OF h1 h2] by simp
qed

section \<open>Filtering to the keys of the second table\<close>

text \<open>
  Claim C3. Let \<open>A\<close> and \<open>B\<close> each have exactly one column labelled \<^verbatim>\<open>comum\<close>, as
  normalised tables do, at positions \<open>i\<close> and \<open>j\<close>, and let the key set of \<open>B\<close> be its
  non-null key values. The list computed on line 67 has exactly these values, and the
  table computed on line 72 has the columns of \<open>A\<close> and exactly the rows of \<open>A\<close> whose key
  is in that set, in the order of \<open>A\<close>: no retained row has a key outside the set, and every
  row occurs as often as in \<open>A\<close> when its key is in the set and not at all otherwise.
\<close>

theorem restrict_to_common_keys:
  assumes "getitem A ''comum'' = Inr (i, sA)" and "getitem B ''comum'' = Inr (j, sB)"
  shows "\<exists>vals f. cidades_comum B = Inr vals \<and> set vals = set sB - {NaN} \<and>
           filtrado A vals = Inr f \<and> columns f = columns A \<and>
           rows f = filter (\<lambda>r. r ! i \<in> set sB - {NaN}) (rows A) \<and>
           (\<forall>r \<in> set (rows f). r ! i \<in> set sB - {NaN}) \<and>
           (\<forall>r. count (mset (rows f)) r =
                 (if r ! i \<in> set sB - {NaN} then count (mset (rows A)) r else 0))"
proof -
  have lA: "locs ''comum'' (columns A) = [i]" using assms(1) by (simp add: getitem_Inr_iff)
  have lB: "locs ''comum'' (columns B) = [j]" and sB: "sB = map (\<lambda>r. r ! j) (rows B)"
    using assms(2) by (simp_all add: getitem_Inr_iff)
  let ?vals = "unique (dropna sB)"
  let ?f = "\<lparr>columns = columns A, rows = filter (\<lambda>r. r ! i \<in> set ?vals) (rows A)\<rparr>"
  have 1: "cidades_comum B = Inr ?vals" using cidades_comum_Inr [OF lB] sB by simp
  have 2: "set ?vals = set sB - {NaN}" by simp
  have 3: "filtrado A ?vals = Inr ?f" by (rule filtrado_Inr [OF lA])
  have 4: "rows ?f = filter (\<lambda>r. r ! i \<in> set sB - {NaN}) (rows A)" by simp
  have 5: "\<forall>r \<in> set (rows ?f). r ! i \<in> set sB - {NaN}" by simp
  have 6: "\<forall>r. count (mset (rows ?f)) r =
                 (if r ! i \<in> set sB - {NaN} then count (mset (rows A)) r else 0)"
    by simp
  have 7: "columns ?f = columns A" by simp
  show ?thesis using 1 2 3 4 5 6 7 by blast
qed

theorem restrict_to_common_keys_witness:
  "getitem \<lparr>columns = [''comum'', ''Pop''],
            rows = [[Str ''LISBON'', Other ''500''], [Str ''PORTO'', Other ''200'']]\<rparr> ''comum''
     = Inr (0, [Str ''LISBON'', Str ''PORTO'']) \<and>
   getitem \<lparr>columns = [''comum'', ''Region''],
            rows = [[Str ''LISBON'', Str ''X''], [Str ''FARO'', Str ''Y'' :: string cell]]\<rparr> ''comum''
     = Inr (0, [Str ''LISBON'', Str ''FARO'']) \<and>
   filtrado \<lparr>columns = [''comum'', ''Pop''],
            rows = [[Str ''LISBON'', Other ''500''], [Str ''PORTO'', Other ''200'']]\<rparr>
       [Str ''LISBON'', Str ''FARO'']
     = Inr \<lparr>columns = [''comum'', ''Pop''], rows = [[Str ''LISBON'', Other ''500'']]\<rparr>"
proof -
  let ?A = "\<lparr>columns = [''comum'', ''Pop''],
            rows = [[Str ''LISBON'', Other ''500''], [Str ''PORTO'', Other ''200'']]\<rparr> :: string dataframe"
  let ?B = "\<lparr>columns = [''comum'', ''Region''],
            rows = [[Str ''LISBON'', Str ''X''], [Str ''FARO'', Str ''Y'']]\<rparr> :: string dataframe"
  have h1: "getitem ?A ''comum'' = Inr (0, [Str ''LISBON'', Str ''PORTO''])" by code_simp
  have h2: "getitem ?B ''comum'' = Inr (0, [Str ''LISBON'', Str ''FARO''])" by code_simp
  have c: "cidades_comum ?B = Inr [Str ''LISBON'', Str ''FARO'']" by code_simp
  from restrict_to_common_keys [OF h1 h2] obtain vals f where
    v: "cidades_comum ?B = Inr vals" and f: "filtrado ?A vals = Inr f"
    and cf: "columns f = columns ?A"
    and rf: "rows f = filter (\<lambda>r. r ! 0 \<in> set [Str ''LISBON'', Str ''FARO''] - {NaN}) (rows ?A)"
    by blast
  have "vals = [Str ''LISBON'', Str ''FARO'']" using v c by simp
  moreover have "f = \<lparr>columns = [''comum'', ''Pop''], rows = [[Str ''LISBON'', Other ''500'']]\<rparr>"
    using cf rf by simp
  ultimately show ?thesis using h1 h2 f by simp
qed

text \<open>
  Claim C9. Line 74 filters the second table with the list of its own keys. After
  normalisation no key is null, so the filter keeps every row: the filtered second table
  is the normalised second table, and what the handler joins is the filtered first table
  with the whole normalised second table.
\<close>

theorem secondary_filter_identity:
  assumes "rectangular arquivo2"
    and "normalize_df py arquivo2 c2 = Inr df2"
  shows "\<exists>vals.
           cidades_comum df2 = Inr vals \<and> filtrado df2 vals = Inr df2 \<and>
           (\<forall>df1. normalize_df py arquivo1 c1 = Inr df1 \<longrightarrow>
              (\<exists>df1_filtrado. filtrado df1 vals = Inr df1_filtrado \<and>
                 transfer py key_order arquivo1 arquivo2 c1 c2 =
                   (if rows df1_filtrado = [] then Inl EmptyResultError
                    else merge key_order df1_filtrado df2)))"
proof -
  obtain j where j: "locs ''comum'' (columns df2) = [j]"
    and k: "map (\<lambda>r. r ! j) (rows df2) = map (\<lambda>r. clean py (r ! j)) (rows arquivo2)"
    using normalize_keys [OF assms] by blast
  let ?s = "map (\<lambda>r. r ! j) (rows df2)"
  let ?vals = "unique (dropna ?s)"
  have v: "cidades_comum df2 = Inr ?vals" by (rule cidades_comum_Inr [OF j])
  have nn: "NaN \<notin> set ?s" unfolding k by (auto simp: clean_def)
  have "filter (\<lambda>r. r ! j \<in> set ?vals) (rows df2) = rows df2"
  proof (rule filter_True)
    show "\<forall>r\<in>set (rows df2). r ! j \<in> set ?vals"
    proof
      fix r assume "r \<in> set (rows df2)"
      then have "r ! j \<in> set ?s" by simp
      then show "r ! j \<in> set ?vals" using nn by auto
    qed
  qed
  then have f2: "filtrado df2 ?vals = Inr df2" using filtrado_Inr [OF j, of ?vals] by simp
  have t: "\<forall>df1. normalize_df py arquivo1 c1 = Inr df1 \<longrightarrow>
              (\<exists>df1_filtrado. filtrado df1 ?vals = Inr df1_filtrado \<and>
                 transfer py key_order arquivo1 arquivo2 c1 c2 =
                   (if rows df1_filtrado = [] then Inl EmptyResultError
                    else merge key_order df1_filtrado df2))"
  proof (intro allI impI)
    fix df1 assume n1: "normalize_df py arquivo1 c1 = Inr df1"
    obtain i where i: "locs ''comum'' (columns df1) = [i]"
      using normalize_InrD [OF n1] by auto
    obtain f1 where f1: "filtrado df1 ?vals = Inr f1" using filtrado_Inr [OF i, of ?vals] by blast
    show "\<exists>df1_filtrado. filtrado df1 ?vals = Inr df1_filtrado \<and>
                 transfer py key_order arquivo1 arquivo2 c1 c2 =
                   (if rows df1_filtrado = [] then Inl EmptyResultError
                    else merge key_order df1_filtrado df2)"
      using f1 transfer_normalized [OF n1 assms(2) f1 f2 v] by blast
  qed
  show ?thesis by (intro exI conjI) (rule v, rule f2, rule t)
qed

theorem secondary_filter_identity_witness:
  "rectangular \<lparr>columns = [''Town'', ''Region''],
                rows = [[Str ''LISBON'', Str ''X''], [Str ''Faro'', Str ''Y'' :: string cell]]\<rparr> \<and>
   normalize_df (ascii_py (\<lambda>s. s)) \<lparr>columns = [''Town'', ''Region''],
                rows = [[Str ''LISBON'', Str ''X''], [Str ''Faro'', Str ''Y'']]\<rparr> ''Town''
     = Inr \<lparr>columns = [''comum'', ''Region''],
                rows = [[Str ''LISBON'', Str ''X''], [Str ''FARO'', Str ''Y'']]\<rparr> \<and>
   cidades_comum \<lparr>columns = [''comum'', ''Region''],
                rows = [[Str ''LISBON'', Str ''X''], [Str ''FARO'', Str ''Y'' :: string cell]]\<rparr>
     = Inr [Str ''LISBON'', Str ''FARO''] \<and>
   filtrado \<lparr>columns = [''comum'', ''Region''],
                rows = [[Str ''LISBON'', Str ''X''], [Str ''FARO'', Str ''Y'' :: string cell]]\<rparr>
       [Str ''LISBON'', Str ''FARO'']
     = Inr \<lparr>columns = [''comum'', ''Region''],
                rows = [[Str ''LISBON'', Str ''X''], [Str ''FARO'', Str ''Y'']]\<rparr>"
proof -
  let ?T1 = "\<lparr>columns = [''City'', ''Pop''],
            rows = [[Str ''Lisbon'', Other ''500''], [Str '' porto '', Other ''200'']]\<rparr> :: string dataframe"
  let ?T2 = "\<lparr>columns = [''Town'', ''Region''],
            rows = [[Str ''LISBON'', Str ''X''], [Str ''Faro'', Str ''Y'']]\<rparr> :: string dataframe"
  let ?N2 = "\<lparr>columns = [''comum'', ''Region''],
            rows = [[Str ''LISBON'', Str ''X''], [Str ''FARO'', Str ''Y'']]\<rparr> :: string dataframe"
  have h1: "rectangular ?T2" by (simp add: rectangular_def)
  have h3: "normalize_df (ascii_py (\<lambda>s. s)) ?T2 ''Town'' = Inr ?N2" by code_simp
  have c: "cidades_comum ?N2 = Inr [Str ''LISBON'', Str ''FARO'']" by code_simp
  from secondary_filter_identity [OF h1 h3, of ?T1 "''City''" "\<lambda>ks. ks"] obtain vals where
    big: "cidades_comum ?N2 = Inr vals \<and> filtrado ?N2 vals = Inr ?N2"
    by (elim exE conjE) (rule that, rule conjI)
  have "vals = [Str ''LISBON'', Str ''FARO'']" using big c by simp
  then have f: "filtrado ?N2 [Str ''LISBON'', Str ''FARO''] = Inr ?N2" using big by simp
  show ?thesis by (intro conjI) (rule h1, rule h3, rule c, rule f)
qed

section \<open>The empty result\<close>

text \<open>
  Claim C4. The handler returns the error of line 85 exactly when both tables were
  normalised and the first one, filtered to the keys of the second, has no row. The
  right-hand side does not mention the join: the error is returned whatever the join of
  the filtered tables would give, and an error is not a result table.
\<close>

theorem empty_result_iff:
  "transfer py key_order arquivo1 arquivo2 c1 c2 = Inl EmptyResultError \<longleftrightarrow>
     (\<exists>df1 df2 vals df1_filtrado.
        normalize_df py arquivo1 c1 = Inr df1 \<and> normalize_df py arquivo2 c2 = Inr df2 \<and>
        cidades_comum df2 = Inr vals \<and> filtrado df1 vals = Inr df1_filtrado \<and>
        rows df1_filtrado = [])"
proof (cases "normalize_df py arquivo1 c1")
  case (Inl e)
  then have "e \<noteq> EmptyResultError" using normalize_error by fastforce
  then show ?thesis using Inl by (simp add: transfer_def)
next
  case n1: (Inr df1)
  show ?thesis
  proof (cases "normalize_df py arquivo2 c2")
    case (Inl e)
    then have "e \<noteq> EmptyResultError" using normalize_error by fastforce
    then show ?thesis using Inl n1 by (simp add: transfer_def)
  next
    case n2: (Inr df2)
    obtain i where i: "locs ''comum'' (columns df1) = [i]"
      using normalize_InrD [OF n1] by auto
    obtain j where j: "locs ''comum'' (columns df2) = [j]"
      using normalize_InrD [OF n2] by auto
    obtain vals where v: "cidades_comum df2 = Inr vals" using cidades_comum_Inr [OF j] by blast
    obtain f1 where f1: "filtrado df1 vals = Inr f1" using filtrado_Inr [OF i, of vals] by blast
    obtain f2 where f2: "filtrado df2 vals = Inr f2" using filtrado_Inr [OF j, of vals] by blast
    have t: "transfer py key_order arquivo1 arquivo2 c1 c2 =
           (if rows f1 = [] then Inl EmptyResultError else merge key_order f1 f2)"
      by (rule transfer_normalized [OF n1 n2 f1 f2 v])
    show ?thesis
    proof
      assume "transfer py key_order arquivo1 arquivo2 c1 c2 = Inl EmptyResultError"
      then have "rows f1 = []" using t merge_not_EmptyResultError [of key_order f1 f2]
        by (simp split: if_splits)
      then show "\<exists>df1 df2 vals df1_filtrado.
        normalize_df py arquivo1 c1 = Inr df1 \<and> normalize_df py arquivo2 c2 = Inr df2 \<and>
        cidades_comum df2 = Inr vals \<and> filtrado df1 vals = Inr df1_filtrado \<and>
        rows df1_filtrado = []" using n1 n2 v f1 by blast
    next
      assume "\<exists>df1 df2 vals df1_filtrado.
        normalize_df py arquivo1 c1 = Inr df1 \<and> normalize_df py arquivo2 c2 = Inr df2 \<and>
        cidades_comum df2 = Inr vals \<and> filtrado df1 vals = Inr df1_filtrado \<and>
        rows df1_filtrado = []"
      then have "rows f1 = []" using n1 n2 v f1 by auto
      then show "transfer py key_order arquivo1 arquivo2 c1 c2 = Inl EmptyResultError"
        using t by simp
    qed
  qed
qed

theorem empty_result_iff_witness:
  "transfer (ascii_py (\<lambda>s. s)) (\<lambda>ks. ks)
     \<lparr>columns = [''K'', ''V''], rows = [[Str ''A'', Other ''1''], [Str ''B'', Other ''2'']]\<rparr>
     \<lparr>columns = [''K'', ''W''], rows = [[Str ''C'', Other ''3''], [Str ''D'', Other ''4'']]\<rparr>
     ''K'' ''K'' = Inl EmptyResultError"
proof -
  let ?A = "\<lparr>columns = [''K'', ''V''], rows = [[Str ''A'', Other ''1''], [Str ''B'', Other ''2'']]\<rparr> :: string dataframe"
  let ?B = "\<lparr>columns = [''K'', ''W''], rows = [[Str ''C'', Other ''3''], [Str ''D'', Other ''4'']]\<rparr> :: string dataframe"
  let ?NA = "\<lparr>columns = [''comum'', ''V''], rows = [[Str ''A'', Other ''1''], [Str ''B'', Other ''2'']]\<rparr> :: string dataframe"
  let ?NB = "\<lparr>columns = [''comum'', ''W''], rows = [[Str ''C'', Other ''3''], [Str ''D'', Other ''4'']]\<rparr> :: string dataframe"
  have 1: "normalize_df (ascii_py (\<lambda>s. s)) ?A ''K'' = Inr ?NA" by code_simp
  have 2: "normalize_df (ascii_py (\<lambda>s. s)) ?B ''K'' = Inr ?NB" by code_simp
  have 3: "cidades_comum ?NB = Inr [Str ''C'', Str ''D'']" by code_simp
  have 4: "filtrado ?NA [Str ''C'', Str ''D''] = Inr \<lparr>columns = [''comum'', ''V''], rows = []\<rparr>"
    by code_simp
  have "\<exists>df1 df2 vals df1_filtrado.
        normalize_df (ascii_py (\<lambda>s. s)) ?A ''K'' = Inr df1 \<and> normalize_df (ascii_py (\<lambda>s. s)) ?B ''K'' = Inr df2 \<and>
        cidades_comum df2 = Inr vals \<and> filtrado df1 vals = Inr df1_filtrado \<and>
        rows df1_filtrado = []"
  proof (intro exI conjI)
    show "normalize_df (ascii_py (\<lambda>s. s)) ?A ''K'' = Inr ?NA" by (rule 1)
    show "normalize_df (ascii_py (\<lambda>s. s)) ?B ''K'' = Inr ?NB" by (rule 2)
    show "cidades_comum ?NB = Inr [Str ''C'', Str ''D'']" by (rule 3)
    show "filtrado ?NA [Str ''C'', Str ''D''] = Inr \<lparr>columns = [''comum'', ''V''], rows = []\<rparr>"
      by (rule 4)
    show "rows (\<lparr>columns = [''comum'', ''V''], rows = []\<rparr> :: string dataframe) = []" by simp
  qed
  then show ?thesis by (rule empty_result_iff [THEN iffD2])
qed

section \<open>The outer join\<close>

text \<open>
  Claim C5, as amended. Let \<open>L\<close> and \<open>R\<close> be rectangular tables, each with exactly one
  column labelled \<^verbatim>\<open>comum\<close>, at positions \<open>i\<close> and \<open>j\<close>, as the two tables that line 89
  joins are. The join either raises \<^verbatim>\<open>MergeError\<close> or returns a table. It returns a
  table, and the labels of that table are pairwise distinct, when the labels of \<open>L\<close> are
  distinct, the labels of \<open>R\<close> are distinct and no label of \<open>L\<close> or \<open>R\<close> is a label that
  occurs on both sides (other than the key) followed by \<^verbatim>\<open>_x\<close> or by \<^verbatim>\<open>_y\<close>.
  Whenever it returns a table \<open>res\<close>: the columns of \<open>res\<close> are the columns of \<open>L\<close>
  followed by the columns of \<open>R\<close> without its key column, one column fewer than both
  together; a label that occurs on both sides (other than the key) appears as the label with
  \<^verbatim>\<open>_x\<close> and as the label with \<^verbatim>\<open>_y\<close>, every other label appears as it is; exactly one
  column of \<open>res\<close> is labelled \<^verbatim>\<open>comum\<close>, at position \<open>i\<close>; every row of \<open>res\<close> has one
  cell per column; when its key occurs in no row of \<open>R\<close> all its cells in the columns of
  \<open>R\<close> are NaN, and when its key occurs in no row of \<open>L\<close> all its cells in the columns of
  \<open>L\<close> but the key are NaN.
\<close>

theorem outer_join_result:
  assumes "rectangular L" and "rectangular R"
    and "locs ''comum'' (columns L) = [i]" and "locs ''comum'' (columns R) = [j]"
  shows
   "(merge key_order L R = Inl MergeError \<or> (\<exists>res. merge key_order L R = Inr res)) \<and>
    (distinct (columns L) \<and> distinct (columns R) \<and>
     (\<forall>c \<in> set (columns L) \<inter> (set (columns R) - {''comum''}).
         c @ ''_x'' \<notin> set (columns L) \<union> set (columns R) \<and>
         c @ ''_y'' \<notin> set (columns L) \<union> set (columns R))
     \<longrightarrow> (\<exists>res. merge key_order L R = Inr res \<and> distinct (columns res))) \<and>
    (\<forall>res. merge key_order L R = Inr res \<longrightarrow>
      (\<exists>common.
         set common = set (columns L) \<inter> (set (columns R) - {''comum''}) \<and>
         columns res = add_suffix ''_x'' common (columns L)
                       @ add_suffix ''_y'' common (drop_at j (columns R)) \<and>
         length (columns res) = length (columns L) + length (columns R) - 1 \<and>
         locs ''comum'' (columns res) = [i] \<and>
         (\<forall>c \<in> set common. c @ ''_x'' \<in> set (columns res) \<and> c @ ''_y'' \<in> set (columns res)) \<and>
         (\<forall>c \<in> (set (columns L) \<union> set (columns R)) - set common. c \<in> set (columns res)) \<and>
         (\<forall>r \<in> set (rows res).
            length r = length (columns res) \<and>
            (r ! i \<notin> (\<lambda>x. x ! j) ` set (rows R) \<longrightarrow>
               drop (length (columns L)) r = replicate (length (columns R) - 1) NaN) \<and>
            (r ! i \<notin> (\<lambda>x. x ! i) ` set (rows L) \<longrightarrow>
               (\<forall>n<length (columns L). n \<noteq> i \<longrightarrow> r ! n = NaN)))))"
proof (intro conjI)
  show "merge key_order L R = Inl MergeError \<or> (\<exists>res. merge key_order L R = Inr res)"
    by (rule merge_cases [OF assms(3,4)])
next
  let ?rc = "drop_at j (columns R)"
  let ?common = "filter (\<lambda>c. c \<in> set ?rc) (columns L)"
  have src: "set ?rc = set (columns R) - {''comum''}" by (rule set_drop_at_locs [OF assms(4)])
  have sc0: "set ?common = set (columns L) \<inter> set ?rc" by auto
  have sc: "set ?common = set (columns L) \<inter> (set (columns R) - {''comum''})"
    using sc0 by (simp only: src)
  show "distinct (columns L) \<and> distinct (columns R) \<and>
     (\<forall>c \<in> set (columns L) \<inter> (set (columns R) - {''comum''}).
         c @ ''_x'' \<notin> set (columns L) \<union> set (columns R) \<and>
         c @ ''_y'' \<notin> set (columns L) \<union> set (columns R))
     \<longrightarrow> (\<exists>res. merge key_order L R = Inr res \<and> distinct (columns res))"
  proof
    assume h: "distinct (columns L) \<and> distinct (columns R) \<and>
     (\<forall>c \<in> set (columns L) \<inter> (set (columns R) - {''comum''}).
         c @ ''_x'' \<notin> set (columns L) \<union> set (columns R) \<and>
         c @ ''_y'' \<notin> set (columns L) \<union> set (columns R))"
    have dl: "distinct (columns L)" using h by (elim conjE)
    have dr0: "distinct (columns R)" using h by (elim conjE)
    have nc0: "\<forall>c \<in> set (columns L) \<inter> (set (columns R) - {''comum''}).
         c @ ''_x'' \<notin> set (columns L) \<union> set (columns R) \<and>
         c @ ''_y'' \<notin> set (columns L) \<union> set (columns R)" using h by (elim conjE)
    have dr: "distinct ?rc" by (rule distinct_drop_at [OF dr0])
    have sub: "set ?rc \<subseteq> set (columns R)" by (rule set_drop_at_subset)
    have nc: "\<forall>c \<in> set ?common. c @ ''_x'' \<notin> set (columns L) \<union> set ?rc \<and>
                                  c @ ''_y'' \<notin> set (columns L) \<union> set ?rc"
    proof
      fix c assume "c \<in> set ?common"
      then have "c \<in> set (columns L) \<inter> (set (columns R) - {''comum''})" unfolding sc .
      with nc0 have "c @ ''_x'' \<notin> set (columns L) \<union> set (columns R) \<and>
         c @ ''_y'' \<notin> set (columns L) \<union> set (columns R)" by (rule bspec)
      then show "c @ ''_x'' \<notin> set (columns L) \<union> set ?rc \<and>
                 c @ ''_y'' \<notin> set (columns L) \<union> set ?rc" using sub by blast
    qed
    have ncx: "\<forall>c \<in> set ?common. c @ ''_x'' \<notin> set (columns L)" using nc by blast
    have ncy: "\<forall>c \<in> set ?common. c @ ''_y'' \<notin> set ?rc" using nc by blast
    have d1: "distinct (add_suffix ''_x'' ?common (columns L))"
      by (rule distinct_add_suffix [OF dl ncx])
    have d2: "distinct (add_suffix ''_y'' ?common ?rc)"
      by (rule distinct_add_suffix [OF dr ncy])
    have s1: "suffix_dups (columns L) (add_suffix ''_x'' ?common (columns L)) = []"
      by (rule suffix_dups_distinct [OF d1])
    have s2: "suffix_dups ?rc (add_suffix ''_y'' ?common ?rc) = []"
      by (rule suffix_dups_distinct [OF d2])
    note sc2 = sc0
    have dd: "distinct (add_suffix ''_x'' ?common (columns L) @ add_suffix ''_y'' ?common ?rc)"
      by (rule merged_labels_distinct [OF dl dr sc2 nc])
    have m: "merge key_order L R =
     Inr \<lparr>columns = add_suffix ''_x'' ?common (columns L) @ add_suffix ''_y'' ?common ?rc,
     rows = concat (map
        (join_group i j (length (columns L)) (length ?rc) (rows L) (rows R))
        (key_order (unique (map (\<lambda>r. r ! i) (rows L) @ map (\<lambda>r. r ! j) (rows R)))))\<rparr>"
      by (rule merge_Inr [OF assms(3,4) s1 s2])
    have dc: "distinct (columns \<lparr>columns = add_suffix ''_x'' ?common (columns L) @ add_suffix ''_y'' ?common ?rc,
     rows = concat (map
        (join_group i j (length (columns L)) (length ?rc) (rows L) (rows R))
        (key_order (unique (map (\<lambda>r. r ! i) (rows L) @ map (\<lambda>r. r ! j) (rows R)))))\<rparr>)"
      unfolding dataframe.select_convs by (rule dd)
    show "\<exists>res. merge key_order L R = Inr res \<and> distinct (columns res)"
      by (intro exI conjI) (rule m, rule dc)
  qed
next
  show "\<forall>res. merge key_order L R = Inr res \<longrightarrow>
      (\<exists>common.
         set common = set (columns L) \<inter> (set (columns R) - {''comum''}) \<and>
         columns res = add_suffix ''_x'' common (columns L)
                       @ add_suffix ''_y'' common (drop_at j (columns R)) \<and>
         length (columns res) = length (columns L) + length (columns R) - 1 \<and>
         locs ''comum'' (columns res) = [i] \<and>
         (\<forall>c \<in> set common. c @ ''_x'' \<in> set (columns res) \<and> c @ ''_y'' \<in> set (columns res)) \<and>
         (\<forall>c \<in> (set (columns L) \<union> set (columns R)) - set common. c \<in> set (columns res)) \<and>
         (\<forall>r \<in> set (rows res).
            length r = length (columns res) \<and>
            (r ! i \<notin> (\<lambda>x. x ! j) ` set (rows R) \<longrightarrow>
               drop (length (columns L)) r = replicate (length (columns R) - 1) NaN) \<and>
            (r ! i \<notin> (\<lambda>x. x ! i) ` set (rows L) \<longrightarrow>
               (\<forall>n<length (columns L). n \<noteq> i \<longrightarrow> r ! n = NaN))))"
  proof (intro allI impI)
    fix res assume m: "merge key_order L R = Inr res"
    obtain i' j' common where
      big: "locs ''comum'' (columns L) = [i'] \<and> locs ''comum'' (columns R) = [j'] \<and>
       set common = set (columns L) \<inter> (set (columns R) - {''comum''}) \<and>
       columns res = add_suffix ''_x'' common (columns L)
                   @ add_suffix ''_y'' common (drop_at j' (columns R)) \<and>
       length (columns res) = length (columns L) + length (columns R) - 1 \<and>
       locs ''comum'' (columns res) = [i'] \<and>
       (\<forall>c \<in> set common. c @ ''_x'' \<in> set (columns res) \<and> c @ ''_y'' \<in> set (columns res)) \<and>
       (\<forall>c \<in> (set (columns L) \<union> set (columns R)) - set common. c \<in> set (columns res)) \<and>
       (\<forall>r \<in> set (rows res).
        length r = length (columns res) \<and>
        (r ! i' \<notin> (\<lambda>x. x ! j') ` set (rows R) \<longrightarrow>
           drop (length (columns L)) r = replicate (length (columns R) - 1) NaN) \<and>
        (r ! i' \<notin> (\<lambda>x. x ! i') ` set (rows L) \<longrightarrow>
           (\<forall>n<length (columns L). n \<noteq> i' \<longrightarrow> r ! n = NaN)))"
      using merge_result_shape [OF assms(1,2) m] by (elim exE) (rule that)
    have i': "locs ''comum'' (columns L) = [i']" using big by (elim conjE)
    have j': "locs ''comum'' (columns R) = [j']" using big by (elim conjE)
    have ii: "i' = i" using i' assms(3) by simp
    have jj: "j' = j" using j' assms(4) by simp
    have rest: "set common = set (columns L) \<inter> (set (columns R) - {''comum''}) \<and>
       columns res = add_suffix ''_x'' common (columns L)
                   @ add_suffix ''_y'' common (drop_at j' (columns R)) \<and>
       length (columns res) = length (columns L) + length (columns R) - 1 \<and>
       locs ''comum'' (columns res) = [i'] \<and>
       (\<forall>c \<in> set common. c @ ''_x'' \<in> set (columns res) \<and> c @ ''_y'' \<in> set (columns res)) \<and>
       (\<forall>c \<in> (set (columns L) \<union> set (columns R)) - set common. c \<in> set (columns res)) \<and>
       (\<forall>r \<in> set (rows res).
        length r = length (columns res) \<and>
        (r ! i' \<notin> (\<lambda>x. x ! j') ` set (rows R) \<longrightarrow>
           drop (length (columns L)) r = replicate (length (columns R) - 1) NaN) \<and>
        (r ! i' \<notin> (\<lambda>x. x ! i') ` set (rows L) \<longrightarrow>
           (\<forall>n<length (columns L). n \<noteq> i' \<longrightarrow> r ! n = NaN)))"
      using big by (rule conjE) (erule conjE, assumption)
    have rest': "set common = set (columns L) \<inter> (set (columns R) - {''comum''}) \<and>
         columns res = add_suffix ''_x'' common (columns L)
                       @ add_suffix ''_y'' common (drop_at j (columns R)) \<and>
         length (columns res) = length (columns L) + length (columns R) - 1 \<and>
         locs ''comum'' (columns res) = [i] \<and>
         (\<forall>c \<in> set common. c @ ''_x'' \<in> set (columns res) \<and> c @ ''_y'' \<in> set (columns res)) \<and>
         (\<forall>c \<in> (set (columns L) \<union> set (columns R)) - set common. c \<in> set (columns res)) \<and>
         (\<forall>r \<in> set (rows res).
            length r = length (columns res) \<and>
            (r ! i \<notin> (\<lambda>x. x ! j) ` set (rows R) \<longrightarrow>
               drop (length (columns L)) r = replicate (length (columns R) - 1) NaN) \<and>
            (r ! i \<notin> (\<lambda>x. x ! i) ` set (rows L) \<longrightarrow>
               (\<forall>n<length (columns L). n \<noteq> i \<longrightarrow> r ! n = NaN)))"
      using rest unfolding ii jj .
    show "\<exists>common.
         set common = set (columns L) \<inter> (set (columns R) - {''comum''}) \<and>
         columns res = add_suffix ''_x'' common (columns L)
                       @ add_suffix ''_y'' common (drop_at j (columns R)) \<and>
         length (columns res) = length (columns L) + length (columns R) - 1 \<and>
         locs ''comum'' (columns res) = [i] \<and>
         (\<forall>c \<in> set common. c @ ''_x'' \<in> set (columns res) \<and> c @ ''_y'' \<in> set (columns res)) \<and>
         (\<forall>c \<in> (set (columns L) \<union> set (columns R)) - set common. c \<in> set (columns res)) \<and>
         (\<forall>r \<in> set (rows res).
            length r = length (columns res) \<and>
            (r ! i \<notin> (\<lambda>x. x ! j) ` set (rows R) \<longrightarrow>
               drop (length (columns L)) r = replicate (length (columns R) - 1) NaN) \<and>
            (r ! i \<notin> (\<lambda>x. x ! i) ` set (rows L) \<longrightarrow>
               (\<forall>n<length (columns L). n \<noteq> i \<longrightarrow> r ! n = NaN)))"
      by (rule exI [where x = common], rule rest')
  qed
qed

theorem outer_join_result_witness:
  "rectangular \<lparr>columns = [''comum'', ''a'', ''b''],
                rows = [[Str ''A'', Other (1::int), NaN], [Str ''B'', Other 2, NaN]]\<rparr> \<and>
   rectangular \<lparr>columns = [''a'', ''comum'', ''c''],
                rows = [[Str ''A1'', Str ''A'', NaN], [Str ''C1'', Str ''C'', Other (9::int)]]\<rparr> \<and>
   locs ''comum'' [''comum'', ''a'', ''b''] = [0] \<and>
   locs ''comum'' [''a'', ''comum'', ''c''] = [1] \<and>
   merge (\<lambda>ks. ks)
      \<lparr>columns = [''comum'', ''a'', ''b''],
       rows = [[Str ''A'', Other (1::int), NaN], [Str ''B'', Other 2, NaN]]\<rparr>
      \<lparr>columns = [''a'', ''comum'', ''c''],
       rows = [[Str ''A1'', Str ''A'', NaN], [Str ''C1'', Str ''C'', Other 9]]\<rparr>
    = Inr \<lparr>columns = [''comum'', ''a_x'', ''b'', ''a_y'', ''c''],
           rows = [[Str ''A'', Other 1, NaN, Str ''A1'', NaN],
                   [Str ''B'', Other 2, NaN, NaN, NaN],
                   [Str ''C'', NaN, NaN, Str ''C1'', Other 9]]\<rparr> \<and>
   (\<exists>res. merge (\<lambda>ks. ks)
      \<lparr>columns = [''comum'', ''a'', ''b''],
       rows = [[Str ''A'', Other (1::int), NaN], [Str ''B'', Other 2, NaN]]\<rparr>
      \<lparr>columns = [''a'', ''comum'', ''c''],
       rows = [[Str ''A1'', Str ''A'', NaN], [Str ''C1'', Str ''C'', Other 9]]\<rparr> = Inr res \<and>
      distinct (columns res))"
proof -
  let ?L = "\<lparr>columns = [''comum'', ''a'', ''b''],
       rows = [[Str ''A'', Other (1::int), NaN], [Str ''B'', Other 2, NaN]]\<rparr>"
  let ?R = "\<lparr>columns = [''a'', ''comum'', ''c''],
       rows = [[Str ''A1'', Str ''A'', NaN], [Str ''C1'', Str ''C'', Other (9::int)]]\<rparr>"
  let ?res = "\<lparr>columns = [''comum'', ''a_x'', ''b'', ''a_y'', ''c''],
           rows = [[Str ''A'', Other (1::int), NaN, Str ''A1'', NaN],
                   [Str ''B'', Other 2, NaN, NaN, NaN],
                   [Str ''C'', NaN, NaN, Str ''C1'', Other 9]]\<rparr>"
  have h1: "rectangular ?L" by (simp add: rectangular_def)
  have h2: "rectangular ?R" by (simp add: rectangular_def)
  have l1: "locs ''comum'' [''comum'', ''a'', ''b''] = [0]" by code_simp
  have l2: "locs ''comum'' [''a'', ''comum'', ''c''] = [1]" by code_simp
  have h3: "locs ''comum'' (columns ?L) = [0]" using l1 by simp
  have h4: "locs ''comum'' (columns ?R) = [1]" using l2 by simp
  have m: "merge (\<lambda>ks. ks) ?L ?R = Inr ?res" by code_simp
  have d: "distinct (columns ?L) \<and> distinct (columns ?R) \<and>
     (\<forall>c \<in> set (columns ?L) \<inter> (set (columns ?R) - {''comum''}).
         c @ ''_x'' \<notin> set (columns ?L) \<union> set (columns ?R) \<and>
         c @ ''_y'' \<notin> set (columns ?L) \<union> set (columns ?R))" by code_simp
  have "distinct (columns ?L) \<and> distinct (columns ?R) \<and>
     (\<forall>c \<in> set (columns ?L) \<inter> (set (columns ?R) - {''comum''}).
         c @ ''_x'' \<notin> set (columns ?L) \<union> set (columns ?R) \<and>
         c @ ''_y'' \<notin> set (columns ?L) \<union> set (columns ?R))
     \<longrightarrow> (\<exists>res. merge (\<lambda>ks. ks) ?L ?R = Inr res \<and> distinct (columns res))"
    using outer_join_result [OF h1 h2 h3 h4, of "\<lambda>ks. ks"] by (elim conjE)
  then have e: "\<exists>res. merge (\<lambda>ks. ks) ?L ?R = Inr res \<and> distinct (columns res)"
    using d by (rule mp)
  show ?thesis by (intro conjI) (rule h1, rule h2, rule l1, rule l2, rule m, rule e)
qed

text \<open>
  The claim as stated has the colliding labels disambiguated for every pair of join inputs.
  A first table with the columns \<^verbatim>\<open>K\<close>, \<^verbatim>\<open>a\<close>, \<^verbatim>\<open>a_y\<close> and a second table with the
  columns \<^verbatim>\<open>K\<close>, \<^verbatim>\<open>a\<close>, both with key column \<^verbatim>\<open>K\<close>, make the handler return a table
  in which two columns are labelled \<^verbatim>\<open>a_y\<close>; with \<^verbatim>\<open>a_x\<close> in place of \<^verbatim>\<open>a_y\<close> in the
  first table the join of line 89 raises \<^verbatim>\<open>MergeError\<close> and there is no result at all.
\<close>

theorem outer_join_collision_counterexample:
  "transfer (ascii_py (\<lambda>s. s)) (\<lambda>ks. ks)
      \<lparr>columns = [''K'', ''a'', ''a_y''], rows = [[Str ''k'', Other ''1'', Other ''2'']]\<rparr>
      \<lparr>columns = [''K'', ''a''], rows = [[Str ''k'', Other ''3'']]\<rparr> ''K'' ''K''
     = Inr \<lparr>columns = [''comum'', ''a_x'', ''a_y'', ''a_y''],
            rows = [[Str ''K'', Other ''1'', Other ''2'', Other ''3'']]\<rparr> \<and>
   \<not> distinct [''comum'', ''a_x'', ''a_y'', ''a_y''] \<and>
   transfer (ascii_py (\<lambda>s. s)) (\<lambda>ks. ks)
      \<lparr>columns = [''K'', ''a'', ''a_x''], rows = [[Str ''k'', Other ''1'', Other ''2'']]\<rparr>
      \<lparr>columns = [''K'', ''a''], rows = [[Str ''k'', Other ''3'']]\<rparr> ''K'' ''K''
     = Inl MergeError"
proof -
  have a: "transfer (ascii_py (\<lambda>s. s)) (\<lambda>ks. ks)
      \<lparr>columns = [''K'', ''a'', ''a_y''], rows = [[Str ''k'', Other ''1'', Other ''2'']]\<rparr>
      \<lparr>columns = [''K'', ''a''], rows = [[Str ''k'', Other ''3'']]\<rparr> ''K'' ''K''
     = Inr \<lparr>columns = [''comum'', ''a_x'', ''a_y'', ''a_y''],
            rows = [[Str ''K'', Other ''1'', Other ''2'', Other ''3'']]\<rparr>" by code_simp
  have b: "\<not> distinct [''comum'', ''a_x'', ''a_y'', ''a_y'']" by simp
  have c: "transfer (ascii_py (\<lambda>s. s)) (\<lambda>ks. ks)
      \<lparr>columns = [''K'', ''a'', ''a_x''], rows = [[Str ''k'', Other ''1'', Other ''2'']]\<rparr>
      \<lparr>columns = [''K'', ''a''], rows = [[Str ''k'', Other ''3'']]\<rparr> ''K'' ''K''
     = Inl MergeError" by code_simp
  show ?thesis by (intro conjI) (rule a, rule b, rule c)
qed

text \<open>
  Claim C6. Let the handler return the table \<open>res\<close> for two rectangular tables, the order
  of the key groups being any permutation of the distinct keys. Then \<open>res\<close> is the outer
  join, on line 89, of the filtered first table \<open>L\<close> and the normalised second table, which
  share the key column \<^verbatim>\<open>comum\<close>, and every key of \<open>L\<close> is a key of the second table.
  The number of rows of \<open>res\<close> is at least the larger of the two numbers of distinct keys,
  and it is equal to it when no key repeats within either side. Every key of either side is
  the key of some row of \<open>res\<close>.
\<close>

theorem outer_join_row_count:
  assumes "rectangular arquivo1" and "rectangular arquivo2"
    and "\<forall>ks. mset (key_order ks) = mset ks"
    and "transfer py key_order arquivo1 arquivo2 c1 c2 = Inr res"
  shows "\<exists>df1 df2 vals L i j lk rk.
     normalize_df py arquivo1 c1 = Inr df1 \<and> normalize_df py arquivo2 c2 = Inr df2 \<and>
     cidades_comum df2 = Inr vals \<and>
     filtrado df1 vals = Inr L \<and> filtrado df2 vals = Inr df2 \<and>
     merge key_order L df2 = Inr res \<and>
     locs ''comum'' (columns L) = [i] \<and> locs ''comum'' (columns df2) = [j] \<and>
     lk = map (\<lambda>r. r ! i) (rows L) \<and> rk = map (\<lambda>r. r ! j) (rows df2) \<and>
     set lk \<subseteq> set rk \<and>
     max (card (set lk)) (card (set rk)) \<le> length (rows res) \<and>
     (distinct lk \<and> distinct rk \<longrightarrow> length (rows res) = max (card (set lk)) (card (set rk))) \<and>
     (\<forall>k \<in> set lk \<union> set rk. \<exists>r \<in> set (rows res). r ! i = k)"
proof -
  obtain df1 df2 where n1: "normalize_df py arquivo1 c1 = Inr df1"
    and n2: "normalize_df py arquivo2 c2 = Inr df2"
    using transfer_Inr_normalize [OF assms(4)] by blast
  obtain i0 j0 vals L where
    p: "locs ''comum'' (columns df1) = [i0] \<and> locs ''comum'' (columns df2) = [j0] \<and>
     cidades_comum df2 = Inr vals \<and> set vals = (\<lambda>r. r ! j0) ` set (rows df2) \<and>
     filtrado df1 vals = Inr L \<and> filtrado df2 vals = Inr df2 \<and>
     columns L = columns df1 \<and> rows L = filter (\<lambda>r. r ! i0 \<in> set vals) (rows df1) \<and>
     rectangular L \<and> rectangular df2 \<and>
     transfer py key_order arquivo1 arquivo2 c1 c2 =
       (if rows L = [] then Inl EmptyResultError else merge key_order L df2)"
    using handler_pipeline [OF assms(1,2) n1 n2, of key_order] by (elim exE) (rule that)
  have i0: "locs ''comum'' (columns df1) = [i0]" using p by (elim conjE)
  have j0: "locs ''comum'' (columns df2) = [j0]" using p by (elim conjE)
  have v: "cidades_comum df2 = Inr vals" using p by (elim conjE)
  have sv: "set vals = (\<lambda>r. r ! j0) ` set (rows df2)" using p by (elim conjE)
  have f1: "filtrado df1 vals = Inr L" using p by (elim conjE)
  have f2: "filtrado df2 vals = Inr df2" using p by (elim conjE)
  have cl: "columns L = columns df1" using p by (elim conjE)
  have rw: "rows L = filter (\<lambda>r. r ! i0 \<in> set vals) (rows df1)" using p by (elim conjE)
  have rl: "rectangular L" using p by (elim conjE)
  have rd: "rectangular df2" using p by (elim conjE)
  have t: "transfer py key_order arquivo1 arquivo2 c1 c2 =
       (if rows L = [] then Inl EmptyResultError else merge key_order L df2)"
    using p by (elim conjE)
  have m: "merge key_order L df2 = Inr res"
  proof (cases "rows L = []")
    case True
    then have "transfer py key_order arquivo1 arquivo2 c1 c2 = Inl EmptyResultError"
      using t by simp
    then show ?thesis using assms(4) by simp
  next
    case False
    then show ?thesis using t assms(4) by simp
  qed
  obtain i j lk rk where
    q: "locs ''comum'' (columns L) = [i] \<and> locs ''comum'' (columns df2) = [j] \<and>
     lk = map (\<lambda>r. r ! i) (rows L) \<and> rk = map (\<lambda>r. r ! j) (rows df2) \<and>
     max (card (set lk)) (card (set rk)) \<le> length (rows res) \<and>
     card (set lk \<union> set rk) \<le> length (rows res) \<and>
     (distinct lk \<and> distinct rk \<longrightarrow> length (rows res) = card (set lk \<union> set rk)) \<and>
     (distinct lk \<and> distinct rk \<and> (set lk \<subseteq> set rk \<or> set rk \<subseteq> set lk) \<longrightarrow>
        length (rows res) = max (card (set lk)) (card (set rk))) \<and>
     (\<forall>k \<in> set lk \<union> set rk. \<exists>r \<in> set (rows res). r ! i = k)"
    using merge_row_count [OF rl rd assms(3) m] by (elim exE) (rule that)
  have qi: "locs ''comum'' (columns L) = [i]" using q by (elim conjE)
  have qj: "locs ''comum'' (columns df2) = [j]" using q by (elim conjE)
  have lk: "lk = map (\<lambda>r. r ! i) (rows L)" using q by (elim conjE)
  have rk: "rk = map (\<lambda>r. r ! j) (rows df2)" using q by (elim conjE)
  have ge: "max (card (set lk)) (card (set rk)) \<le> length (rows res)" using q by (elim conjE)
  have eq0: "distinct lk \<and> distinct rk \<and> (set lk \<subseteq> set rk \<or> set rk \<subseteq> set lk) \<longrightarrow>
        length (rows res) = max (card (set lk)) (card (set rk))" using q by (elim conjE)
  have ks: "\<forall>k \<in> set lk \<union> set rk. \<exists>r \<in> set (rows res). r ! i = k" using q by (elim conjE)
  have ii: "i = i0" using qi i0 cl by simp
  have jj: "j = j0" using qj j0 by simp
  have sub: "set lk \<subseteq> set rk"
  proof
    fix k assume "k \<in> set lk"
    then obtain r where r: "r \<in> set (rows L)" and k: "k = r ! i" unfolding lk by auto
    have "r ! i0 \<in> set vals" using r unfolding rw by simp
    then have "k \<in> (\<lambda>r. r ! j0) ` set (rows df2)" using k ii sv by simp
    then show "k \<in> set rk" unfolding rk jj by simp
  qed
  have eq: "distinct lk \<and> distinct rk \<longrightarrow> length (rows res) = max (card (set lk)) (card (set rk))"
  proof
    assume d: "distinct lk \<and> distinct rk"
    have "distinct lk \<and> distinct rk \<and> (set lk \<subseteq> set rk \<or> set rk \<subseteq> set lk)"
      using d sub by (intro conjI disjI1) (elim conjE, assumption)+
    then show "length (rows res) = max (card (set lk)) (card (set rk))" using eq0 by (rule rev_mp)
  qed
  show ?thesis
    by (intro exI conjI) (rule n1, rule n2, rule v, rule f1, rule f2, rule m, rule qi, rule qj,
        rule lk, rule rk, rule sub, rule ge, rule eq, rule ks)
qed

theorem outer_join_row_count_witness:
  "rectangular \<lparr>columns = [''City'', ''Pop''],
                rows = [[Str ''Lisbon'', Other ''500''], [Str '' porto '', Other ''200'']]\<rparr> \<and>
   rectangular \<lparr>columns = [''Town'', ''Region''],
                rows = [[Str ''LISBON'', Str ''X''], [Str ''Faro'', Str ''Y'' :: string cell]]\<rparr> \<and>
   (\<forall>ks :: string cell list. mset ((\<lambda>ks. ks) ks) = mset ks) \<and>
   transfer (ascii_py (\<lambda>s. s)) (\<lambda>ks. ks)
      \<lparr>columns = [''City'', ''Pop''],
       rows = [[Str ''Lisbon'', Other ''500''], [Str '' porto '', Other ''200'']]\<rparr>
      \<lparr>columns = [''Town'', ''Region''],
       rows = [[Str ''LISBON'', Str ''X''], [Str ''Faro'', Str ''Y'']]\<rparr> ''City'' ''Town''
     = Inr \<lparr>columns = [''comum'', ''Pop'', ''Region''],
            rows = [[Str ''LISBON'', Other ''500'', Str ''X''], [Str ''FARO'', NaN, Str ''Y'']]\<rparr> \<and>
   max (card (set [Str ''LISBON'' :: string cell]))
       (card (set [Str ''LISBON'', Str ''FARO'' :: string cell]))
     \<le> length [[Str ''LISBON'', Other ''500'', Str ''X''], [Str ''FARO'', NaN, Str ''Y'' :: string cell]]"
proof -
  let ?A = "\<lparr>columns = [''City'', ''Pop''],
       rows = [[Str ''Lisbon'', Other ''500''], [Str '' porto '', Other ''200'']]\<rparr> :: string dataframe"
  let ?B = "\<lparr>columns = [''Town'', ''Region''],
       rows = [[Str ''LISBON'', Str ''X''], [Str ''Faro'', Str ''Y'']]\<rparr> :: string dataframe"
  let ?NA = "\<lparr>columns = [''comum'', ''Pop''],
       rows = [[Str ''LISBON'', Other ''500''], [Str ''PORTO'', Other ''200'']]\<rparr> :: string dataframe"
  let ?NB = "\<lparr>columns = [''comum'', ''Region''],
       rows = [[Str ''LISBON'', Str ''X''], [Str ''FARO'', Str ''Y'']]\<rparr> :: string dataframe"
  let ?FA = "\<lparr>columns = [''comum'', ''Pop''],
       rows = [[Str ''LISBON'', Other ''500'']]\<rparr> :: string dataframe"
  let ?res = "\<lparr>columns = [''comum'', ''Pop'', ''Region''],
            rows = [[Str ''LISBON'', Other ''500'', Str ''X''], [Str ''FARO'', NaN, Str ''Y'']]\<rparr> :: string dataframe"
  have h1: "rectangular ?A" by (simp add: rectangular_def)
  have h2: "rectangular ?B" by (simp add: rectangular_def)
  have h3: "\<forall>ks :: string cell list. mset ((\<lambda>ks. ks) ks) = mset ks" by simp
  have h4: "transfer (ascii_py (\<lambda>s. s)) (\<lambda>ks. ks) ?A ?B ''City'' ''Town'' = Inr ?res" by code_simp
  have g1: "normalize_df (ascii_py (\<lambda>s. s)) ?A ''City'' = Inr ?NA" by code_simp
  have g2: "normalize_df (ascii_py (\<lambda>s. s)) ?B ''Town'' = Inr ?NB" by code_simp
  have g3: "cidades_comum ?NB = Inr [Str ''LISBON'', Str ''FARO'']" by code_simp
  have g4: "filtrado ?NA [Str ''LISBON'', Str ''FARO''] = Inr ?FA" by code_simp
  have g5: "locs ''comum'' (columns ?FA) = [0]" by code_simp
  have g6: "locs ''comum'' (columns ?NB) = [0]" by code_simp
  from outer_join_row_count [OF h1 h2 h3 h4] obtain df1 df2 vals L i j lk rk where
    big: "normalize_df (ascii_py (\<lambda>s. s)) ?A ''City'' = Inr df1 \<and>
     normalize_df (ascii_py (\<lambda>s. s)) ?B ''Town'' = Inr df2 \<and>
     cidades_comum df2 = Inr vals \<and>
     filtrado df1 vals = Inr L \<and> filtrado df2 vals = Inr df2 \<and>
     merge (\<lambda>ks. ks) L df2 = Inr ?res \<and>
     locs ''comum'' (columns L) = [i] \<and> locs ''comum'' (columns df2) = [j] \<and>
     lk = map (\<lambda>r. r ! i) (rows L) \<and> rk = map (\<lambda>r. r ! j) (rows df2) \<and>
     set lk \<subseteq> set rk \<and>
     max (card (set lk)) (card (set rk)) \<le> length (rows ?res)"
    by (elim exE conjE) (rule that, intro conjI)
  have r1: "normalize_df (ascii_py (\<lambda>s. s)) ?A ''City'' = Inr df1" using big by (elim conjE)
  have r2: "normalize_df (ascii_py (\<lambda>s. s)) ?B ''Town'' = Inr df2" using big by (elim conjE)
  have r3: "cidades_comum df2 = Inr vals" using big by (elim conjE)
  have r4: "filtrado df1 vals = Inr L" using big by (elim conjE)
  have r5: "locs ''comum'' (columns L) = [i]" using big by (elim conjE)
  have r6: "locs ''comum'' (columns df2) = [j]" using big by (elim conjE)
  have r7: "lk = map (\<lambda>r. r ! i) (rows L)" using big by (elim conjE)
  have r8: "rk = map (\<lambda>r. r ! j) (rows df2)" using big by (elim conjE)
  have r9: "max (card (set lk)) (card (set rk)) \<le> length (rows ?res)" using big by (elim conjE)
  have df1: "df1 = ?NA" using r1 g1 by simp
  have df2: "df2 = ?NB" using r2 g2 by simp
  have vals: "vals = [Str ''LISBON'', Str ''FARO'']" using r3 g3 unfolding df2 by simp
  have L: "L = ?FA" using r4 g4 unfolding df1 vals by simp
  have i: "i = 0" using r5 g5 unfolding L by simp
  have j: "j = 0" using r6 g6 unfolding df2 by simp
  have lk: "lk = [Str ''LISBON'']" unfolding r7 L i by simp
  have rk: "rk = [Str ''LISBON'', Str ''FARO'']" unfolding r8 df2 j by simp
  have m: "max (card (set [Str ''LISBON'' :: string cell]))
       (card (set [Str ''LISBON'', Str ''FARO'' :: string cell]))
     \<le> length [[Str ''LISBON'', Other ''500'', Str ''X''], [Str ''FARO'', NaN, Str ''Y'' :: string cell]]"
    using r9 unfolding lk rk by simp
  show ?thesis by (intro conjI) (rule h1, rule h2, rule h3, rule h4, rule m)
qed

section \<open>Null keys\<close>

text \<open>
  Claim C10. Let both tables be rectangular and normalised, with original key columns
  \<open>s1\<close>, \<open>s2\<close> and normalised key columns \<open>k1\<close>, \<open>k2\<close>, the order of the key groups being
  any permutation of the distinct keys. Every normalised key is a string, never NaN, so
  \<^verbatim>\<open>dropna\<close> on line 67 removes nothing, the list of line 67 has exactly the keys of the
  second table and the filter of line 74 keeps the second table whole. When \<^verbatim>\<open>strip\<close> and
  \<^verbatim>\<open>upper\<close> do on ASCII strings what Python's do, a key cell that was NaN becomes the
  string \<^verbatim>\<open>NAN\<close>. Let the key cell of row \<open>n\<close> of the first table and the key cell of row
  \<open>m\<close> of the second table both have been NaN. The two rows have the same normalised key,
  row \<open>n\<close> is kept by the filter of line 72 and, unless the join of line 89 raises
  \<^verbatim>\<open>MergeError\<close> on colliding labels, the handler returns a table one row of which is row
  \<open>n\<close> joined with row \<open>m\<close>: the cells of row \<open>n\<close> followed by the cells of row \<open>m\<close>
  without its key.
\<close>

theorem normalized_keys_never_null:
  assumes "rectangular arquivo1" and "rectangular arquivo2"
    and "normalize_df py arquivo1 c1 = Inr df1"
    and "normalize_df py arquivo2 c2 = Inr df2"
    and "\<forall>ks. mset (key_order ks) = mset ks"
  shows "\<exists>i s1 k1 j s2 k2 vals df1_filtrado.
     getitem (rename arquivo1 c1 ''comum'') ''comum'' = Inr (i, s1) \<and>
     getitem df1 ''comum'' = Inr (i, k1) \<and>
     getitem (rename arquivo2 c2 ''comum'') ''comum'' = Inr (j, s2) \<and>
     getitem df2 ''comum'' = Inr (j, k2) \<and>
     k1 = map (clean py) s1 \<and> k2 = map (clean py) s2 \<and>
     (\<forall>v \<in> set k1 \<union> set k2. v \<noteq> NaN \<and> (\<exists>t. v = Str t)) \<and>
     dropna k2 = k2 \<and> cidades_comum df2 = Inr vals \<and> set vals = set k2 \<and>
     (ascii_faithful py \<longrightarrow>
        (\<forall>n<length s1. s1 ! n = NaN \<longrightarrow> k1 ! n = Str ''NAN'') \<and>
        (\<forall>m<length s2. s2 ! m = NaN \<longrightarrow> k2 ! m = Str ''NAN'')) \<and>
     filtrado df1 vals = Inr df1_filtrado \<and>
     filtrado df2 vals = Inr df2 \<and>
     (\<forall>n<length s1. \<forall>m<length s2. s1 ! n = NaN \<and> s2 ! m = NaN \<longrightarrow>
        k1 ! n = k2 ! m \<and>
        rows df1 ! n \<in> set (rows df1_filtrado) \<and>
        (transfer py key_order arquivo1 arquivo2 c1 c2 = Inl MergeError \<or>
         (\<exists>res. transfer py key_order arquivo1 arquivo2 c1 c2 = Inr res \<and>
                rows df1 ! n @ drop_at j (rows df2 ! m) \<in> set (rows res))))"
proof -
  obtain i s1 where a: "getitem (rename arquivo1 c1 ''comum'') ''comum'' = Inr (i, s1)"
      "getitem df1 ''comum'' = Inr (i, map (clean py) s1)"
      "locs ''comum'' (columns df1) = [i]" "length s1 = length (rows df1)"
    using normalize_key_series [OF assms(1,3)] by blast
  obtain j s2 where b: "getitem (rename arquivo2 c2 ''comum'') ''comum'' = Inr (j, s2)"
      "getitem df2 ''comum'' = Inr (j, map (clean py) s2)"
      "locs ''comum'' (columns df2) = [j]" "length s2 = length (rows df2)"
    using normalize_key_series [OF assms(2,4)] by blast
  let ?k1 = "map (clean py) s1" and ?k2 = "map (clean py) s2"
  let ?vals = "unique (dropna ?k2)"
  let ?f1 = "\<lparr>columns = columns df1, rows = filter (\<lambda>r. r ! i \<in> set ?vals) (rows df1)\<rparr>"
  have str: "\<forall>v \<in> set ?k1 \<union> set ?k2. v \<noteq> NaN \<and> (\<exists>t. v = Str t)"
    by (auto simp: clean_def)
  then have nn: "NaN \<notin> set ?k2" by blast
  have dn: "dropna ?k2 = ?k2" by (rule dropna_id [OF nn])
  have k2: "?k2 = map (\<lambda>r. r ! j) (rows df2)" using b(2) by (simp add: getitem_Inr_iff)
  have k1: "?k1 = map (\<lambda>r. r ! i) (rows df1)" using a(2) by (simp add: getitem_Inr_iff)
  have v: "cidades_comum df2 = Inr ?vals" using cidades_comum_Inr [OF b(3)] k2 by simp
  have sv: "set ?vals = set ?k2" using dn by simp
  have na: "ascii_faithful py \<longrightarrow>
        (\<forall>n<length s1. s1 ! n = NaN \<longrightarrow> ?k1 ! n = Str ''NAN'') \<and>
        (\<forall>m<length s2. s2 ! m = NaN \<longrightarrow> ?k2 ! m = Str ''NAN'')"
    by (simp add: clean_NaN)
  have f: "filtrado df1 ?vals = Inr ?f1" by (rule filtrado_Inr [OF a(3)])
  have "filter (\<lambda>r. r ! j \<in> set ?vals) (rows df2) = rows df2"
  proof (rule filter_True)
    show "\<forall>r\<in>set (rows df2). r ! j \<in> set ?vals"
    proof
      fix r assume "r \<in> set (rows df2)"
      then have "r ! j \<in> set (map (\<lambda>r. r ! j) (rows df2))" by simp
      then have "r ! j \<in> set ?k2" unfolding k2 .
      then show "r ! j \<in> set ?vals" unfolding sv .
    qed
  qed
  then have f2: "filtrado df2 ?vals = Inr df2" using filtrado_Inr [OF b(3), of ?vals] by simp
  have t: "transfer py key_order arquivo1 arquivo2 c1 c2 =
       (if rows ?f1 = [] then Inl EmptyResultError else merge key_order ?f1 df2)"
    by (rule transfer_normalized [OF assms(3,4) f f2 v])
  have li: "locs ''comum'' (columns ?f1) = [i]" using a(3) by simp
  have jn: "\<forall>n<length s1. \<forall>m<length s2. s1 ! n = NaN \<and> s2 ! m = NaN \<longrightarrow>
        ?k1 ! n = ?k2 ! m \<and>
        rows df1 ! n \<in> set (rows ?f1) \<and>
        (transfer py key_order arquivo1 arquivo2 c1 c2 = Inl MergeError \<or>
         (\<exists>res. transfer py key_order arquivo1 arquivo2 c1 c2 = Inr res \<and>
                rows df1 ! n @ drop_at j (rows df2 ! m) \<in> set (rows res)))"
  proof (intro allI impI)
    fix n m assume n: "n < length s1" and m: "m < length s2"
      and h: "s1 ! n = NaN \<and> s2 ! m = NaN"
    have n': "n < length (rows df1)" using n a(4) by simp
    have m': "m < length (rows df2)" using m b(4) by simp
    have e1: "?k1 ! n = clean py NaN" using n h by simp
    have e2: "?k2 ! m = clean py NaN" using m h by simp
    have ke: "?k1 ! n = ?k2 ! m" using e1 e2 by simp
    have "rows df1 ! n ! i = map (\<lambda>r. r ! i) (rows df1) ! n" using n' by simp
    then have key1: "rows df1 ! n ! i = ?k1 ! n" unfolding k1 [symmetric] .
    have "rows df2 ! m ! j = map (\<lambda>r. r ! j) (rows df2) ! m" using m' by simp
    then have key2: "rows df2 ! m ! j = ?k2 ! m" unfolding k2 [symmetric] .
    have "?k2 ! m \<in> set ?k2" using m by simp
    then have "?k2 ! m \<in> set ?vals" unfolding sv .
    then have kin: "rows df1 ! n ! i \<in> set ?vals" using key1 ke by simp
    have l0: "rows df1 ! n \<in> set (rows df1)" using n' by simp
    have l: "rows df1 ! n \<in> set (rows ?f1)" using l0 kin by simp
    have r: "rows df2 ! m \<in> set (rows df2)" using m' by simp
    have e: "rows df1 ! n ! i = rows df2 ! m ! j" using key1 key2 ke by simp
    have ne: "rows ?f1 \<noteq> []" using l by (rule ne_set_empty)
    have t': "transfer py key_order arquivo1 arquivo2 c1 c2 = merge key_order ?f1 df2"
      using t ne by simp
    have d: "transfer py key_order arquivo1 arquivo2 c1 c2 = Inl MergeError \<or>
         (\<exists>res. transfer py key_order arquivo1 arquivo2 c1 c2 = Inr res \<and>
                rows df1 ! n @ drop_at j (rows df2 ! m) \<in> set (rows res))"
    proof (cases "merge key_order ?f1 df2 = Inl MergeError")
      case True
      then show ?thesis using t' by simp
    next
      case False
      then obtain res where mr: "merge key_order ?f1 df2 = Inr res"
        using merge_cases [OF li b(3), of key_order] by blast
      have "rows df1 ! n @ drop_at j (rows df2 ! m) \<in> set (rows res)"
        by (rule merge_pair_row [OF assms(5) mr li b(3) l r e])
      then show ?thesis using t' mr by simp
    qed
    show "?k1 ! n = ?k2 ! m \<and>
        rows df1 ! n \<in> set (rows ?f1) \<and>
        (transfer py key_order arquivo1 arquivo2 c1 c2 = Inl MergeError \<or>
         (\<exists>res. transfer py key_order arquivo1 arquivo2 c1 c2 = Inr res \<and>
                rows df1 ! n @ drop_at j (rows df2 ! m) \<in> set (rows res)))"
      by (intro conjI) (rule ke, rule l, rule d)
  qed
  show ?thesis
  proof (intro exI conjI)
    show "getitem (rename arquivo1 c1 ''comum'') ''comum'' = Inr (i, s1)" by (rule a(1))
    show "getitem df1 ''comum'' = Inr (i, ?k1)" by (rule a(2))
    show "getitem (rename arquivo2 c2 ''comum'') ''comum'' = Inr (j, s2)" by (rule b(1))
    show "getitem df2 ''comum'' = Inr (j, ?k2)" by (rule b(2))
    show "?k1 = map (clean py) s1" by (rule refl)
    show "?k2 = map (clean py) s2" by (rule refl)
    show "\<forall>v \<in> set ?k1 \<union> set ?k2. v \<noteq> NaN \<and> (\<exists>t. v = Str t)" by (rule str)
    show "dropna ?k2 = ?k2" by (rule dn)
    show "cidades_comum df2 = Inr ?vals" by (rule v)
    show "set ?vals = set ?k2" by (rule sv)
    show "ascii_faithful py \<longrightarrow>
        (\<forall>n<length s1. s1 ! n = NaN \<longrightarrow> ?k1 ! n = Str ''NAN'') \<and>
        (\<forall>m<length s2. s2 ! m = NaN \<longrightarrow> ?k2 ! m = Str ''NAN'')" by (rule na)
    show "filtrado df1 ?vals = Inr ?f1" by (rule f)
    show "filtrado df2 ?vals = Inr df2" by (rule f2)
    show "\<forall>n<length s1. \<forall>m<length s2. s1 ! n = NaN \<and> s2 ! m = NaN \<longrightarrow>
        ?k1 ! n = ?k2 ! m \<and>
        rows df1 ! n \<in> set (rows ?f1) \<and>
        (transfer py key_order arquivo1 arquivo2 c1 c2 = Inl MergeError \<or>
         (\<exists>res. transfer py key_order arquivo1 arquivo2 c1 c2 = Inr res \<and>
                rows df1 ! n @ drop_at j (rows df2 ! m) \<in> set (rows res)))" by (rule jn)
  qed
qed

theorem normalized_keys_never_null_witness:
  "rectangular \<lparr>columns = [''K'', ''V''], rows = [[NaN, Other ''1''], [Str ''b'', Other ''2'']]\<rparr> \<and>
   rectangular \<lparr>columns = [''K'', ''W''], rows = [[Str ''c'', Other ''3''], [NaN, Other ''4'']]\<rparr> \<and>
   normalize_df (ascii_py (\<lambda>s. s))
       \<lparr>columns = [''K'', ''V''], rows = [[NaN, Other ''1''], [Str ''b'', Other ''2'']]\<rparr> ''K''
     = Inr \<lparr>columns = [''comum'', ''V''], rows = [[Str ''NAN'', Other ''1''], [Str ''B'', Other ''2'']]\<rparr> \<and>
   normalize_df (ascii_py (\<lambda>s. s))
       \<lparr>columns = [''K'', ''W''], rows = [[Str ''c'', Other ''3''], [NaN, Other ''4'']]\<rparr> ''K''
     = Inr \<lparr>columns = [''comum'', ''W''], rows = [[Str ''C'', Other ''3''], [Str ''NAN'', Other ''4'']]\<rparr> \<and>
   (\<forall>ks :: string cell list. mset ((\<lambda>ks. ks) ks) = mset ks) \<and>
   cidades_comum \<lparr>columns = [''comum'', ''W''], rows = [[Str ''C'', Other ''3''], [Str ''NAN'', Other ''4'']]\<rparr>
     = Inr [Str ''C'', Str ''NAN''] \<and>
   (\<exists>res. transfer (ascii_py (\<lambda>s. s)) (\<lambda>ks. ks)
       \<lparr>columns = [''K'', ''V''], rows = [[NaN, Other ''1''], [Str ''b'', Other ''2'']]\<rparr>
       \<lparr>columns = [''K'', ''W''], rows = [[Str ''c'', Other ''3''], [NaN, Other ''4'']]\<rparr> ''K'' ''K''
       = Inr res \<and>
     [Str ''NAN'', Other ''1'', Other ''4''] \<in> set (rows res))"
proof -
  let ?A = "\<lparr>columns = [''K'', ''V''], rows = [[NaN, Other ''1''], [Str ''b'', Other ''2'']]\<rparr> :: string dataframe"
  let ?B = "\<lparr>columns = [''K'', ''W''], rows = [[Str ''c'', Other ''3''], [NaN, Other ''4'']]\<rparr> :: string dataframe"
  let ?NA = "\<lparr>columns = [''comum'', ''V''], rows = [[Str ''NAN'', Other ''1''], [Str ''B'', Other ''2'']]\<rparr> :: string dataframe"
  let ?NB = "\<lparr>columns = [''comum'', ''W''], rows = [[Str ''C'', Other ''3''], [Str ''NAN'', Other ''4'']]\<rparr> :: string dataframe"
  let ?py = "ascii_py (\<lambda>s :: string. s)"
  let ?ko = "\<lambda>ks :: string cell list. ks"
  have h1: "rectangular ?A" by (simp add: rectangular_def)
  have h2: "rectangular ?B" by (simp add: rectangular_def)
  have h3: "normalize_df ?py ?A ''K'' = Inr ?NA" by code_simp
  have h4: "normalize_df ?py ?B ''K'' = Inr ?NB" by code_simp
  have h5: "\<forall>ks :: string cell list. mset (?ko ks) = mset ks" by simp
  have g1: "getitem (rename ?A ''K'' ''comum'') ''comum'' = Inr (0, [NaN, Str ''b''])" by code_simp
  have g2: "getitem (rename ?B ''K'' ''comum'') ''comum'' = Inr (0, [Str ''c'', NaN])" by code_simp
  have c: "cidades_comum ?NB = Inr [Str ''C'', Str ''NAN'']" by code_simp
  have tm: "transfer ?py ?ko ?A ?B ''K'' ''K'' \<noteq> Inl MergeError" by code_simp
  from normalized_keys_never_null [OF h1 h2 h3 h4 h5] obtain i s1 k1 j s2 k2 vals f where
    big: "getitem (rename ?A ''K'' ''comum'') ''comum'' = Inr (i, s1) \<and>
     getitem ?NA ''comum'' = Inr (i, k1) \<and>
     getitem (rename ?B ''K'' ''comum'') ''comum'' = Inr (j, s2) \<and>
     getitem ?NB ''comum'' = Inr (j, k2) \<and>
     k1 = map (clean ?py) s1 \<and> k2 = map (clean ?py) s2 \<and>
     (\<forall>v \<in> set k1 \<union> set k2. v \<noteq> NaN \<and> (\<exists>t. v = Str t)) \<and>
     dropna k2 = k2 \<and> cidades_comum ?NB = Inr vals \<and> set vals = set k2 \<and>
     (ascii_faithful ?py \<longrightarrow>
        (\<forall>n<length s1. s1 ! n = NaN \<longrightarrow> k1 ! n = Str ''NAN'') \<and>
        (\<forall>m<length s2. s2 ! m = NaN \<longrightarrow> k2 ! m = Str ''NAN'')) \<and>
     filtrado ?NA vals = Inr f \<and>
     filtrado ?NB vals = Inr ?NB \<and>
     (\<forall>n<length s1. \<forall>m<length s2. s1 ! n = NaN \<and> s2 ! m = NaN \<longrightarrow>
        k1 ! n = k2 ! m \<and>
        rows ?NA ! n \<in> set (rows f) \<and>
        (transfer ?py ?ko ?A ?B ''K'' ''K'' = Inl MergeError \<or>
         (\<exists>res. transfer ?py ?ko ?A ?B ''K'' ''K'' = Inr res \<and>
                rows ?NA ! n @ drop_at j (rows ?NB ! m) \<in> set (rows res))))"
    by (elim exE) (rule that)
  have r1: "getitem (rename ?A ''K'' ''comum'') ''comum'' = Inr (i, s1)"
    using big by (elim conjE)
  have r2: "getitem (rename ?B ''K'' ''comum'') ''comum'' = Inr (j, s2)"
    using big by (elim conjE)
  have r5: "\<forall>n<length s1. \<forall>m<length s2. s1 ! n = NaN \<and> s2 ! m = NaN \<longrightarrow>
        k1 ! n = k2 ! m \<and>
        rows ?NA ! n \<in> set (rows f) \<and>
        (transfer ?py ?ko ?A ?B ''K'' ''K'' = Inl MergeError \<or>
         (\<exists>res. transfer ?py ?ko ?A ?B ''K'' ''K'' = Inr res \<and>
                rows ?NA ! n @ drop_at j (rows ?NB ! m) \<in> set (rows res)))"
    using big by (elim conjE)
  have s1: "s1 = [NaN, Str ''b'']" using r1 g1 by simp
  have s2: "s2 = [Str ''c'', NaN]" using r2 g2 by simp
  have j: "j = 0" using r2 g2 by simp
  have p0: "(0::nat) < length s1" unfolding s1 by simp
  have p1: "(1::nat) < length s2" unfolding s2 by simp
  have p2: "s1 ! 0 = NaN \<and> s2 ! 1 = NaN" unfolding s1 s2 by simp
  have q0: "\<forall>m<length s2. s1 ! 0 = NaN \<and> s2 ! m = NaN \<longrightarrow>
        k1 ! 0 = k2 ! m \<and>
        rows ?NA ! 0 \<in> set (rows f) \<and>
        (transfer ?py ?ko ?A ?B ''K'' ''K'' = Inl MergeError \<or>
         (\<exists>res. transfer ?py ?ko ?A ?B ''K'' ''K'' = Inr res \<and>
                rows ?NA ! 0 @ drop_at j (rows ?NB ! m) \<in> set (rows res)))"
    using r5 [rule_format, of 0] p0 by (intro allI impI)
  have q1: "k1 ! 0 = k2 ! 1 \<and>
        rows ?NA ! 0 \<in> set (rows f) \<and>
        (transfer ?py ?ko ?A ?B ''K'' ''K'' = Inl MergeError \<or>
         (\<exists>res. transfer ?py ?ko ?A ?B ''K'' ''K'' = Inr res \<and>
                rows ?NA ! 0 @ drop_at j (rows ?NB ! 1) \<in> set (rows res)))"
    by (rule q0 [rule_format, OF p1 p2])
  then have "transfer ?py ?ko ?A ?B ''K'' ''K'' = Inl MergeError \<or>
         (\<exists>res. transfer ?py ?ko ?A ?B ''K'' ''K'' = Inr res \<and>
                rows ?NA ! 0 @ drop_at j (rows ?NB ! 1) \<in> set (rows res))"
    by (elim conjE)
  then obtain res where res: "transfer ?py ?ko ?A ?B ''K'' ''K'' = Inr res"
    and mem: "rows ?NA ! 0 @ drop_at j (rows ?NB ! 1) \<in> set (rows res)"
    using tm by blast
  have row: "rows ?NA ! 0 @ drop_at j (rows ?NB ! 1) = [Str ''NAN'', Other ''1'', Other ''4'']"
    unfolding j by (simp add: drop_at_def)
  have mem': "[Str ''NAN'', Other ''1'', Other ''4''] \<in> set (rows res)"
    using mem unfolding row .
  have e: "\<exists>res. transfer ?py ?ko ?A ?B ''K'' ''K'' = Inr res \<and>
     [Str ''NAN'', Other ''1'', Other ''4''] \<in> set (rows res)"
    by (intro exI conjI) (rule res, rule mem')
  show ?thesis
    by (intro conjI) (rule h1, rule h2, rule h3, rule h4, rule h5, rule c, rule e)
qed

section \<open>The scenario of the specification\<close>

text \<open>
  Claim C7, as amended. For the two tables of the scenario, whatever \<^verbatim>\<open>str\<close> does on
  numbers, for \<^verbatim>\<open>strip\<close> and \<^verbatim>\<open>upper\<close> that do on ASCII strings what Python's do, and
  in whatever order the key groups come: the keys of the first table become
  \<^verbatim>\<open>LISBON\<close> and \<^verbatim>\<open>PORTO\<close>, those of the second \<^verbatim>\<open>LISBON\<close> and \<^verbatim>\<open>FARO\<close>; the list
  of line 67 is the keys of the second table, \<^verbatim>\<open>LISBON\<close> and \<^verbatim>\<open>FARO\<close>; the filtered
  first table has the one row of \<^verbatim>\<open>LISBON\<close>; the filtered second table is the whole
  second table; and the handler returns the columns \<^verbatim>\<open>comum\<close>, \<^verbatim>\<open>Pop\<close>, \<^verbatim>\<open>Region\<close>
  with two rows, the joined row of \<^verbatim>\<open>LISBON\<close> and the row of \<^verbatim>\<open>FARO\<close> with an empty
  \<^verbatim>\<open>Pop\<close>.
\<close>

theorem end_to_end_scenario:
  assumes "ascii_faithful py" and "\<forall>ks. mset (key_order ks) = mset ks"
  shows
   "normalize_df py
      \<lparr>columns = [''City'', ''Pop''],
       rows = [[Str ''Lisbon'', Other (500::int)], [Str '' porto '', Other 200]]\<rparr> ''City''
      = Inr \<lparr>columns = [''comum'', ''Pop''],
             rows = [[Str ''LISBON'', Other 500], [Str ''PORTO'', Other 200]]\<rparr> \<and>
    normalize_df py
      \<lparr>columns = [''Town'', ''Region''],
       rows = [[Str ''LISBON'', Str ''X''], [Str ''Faro'', Str ''Y'']]\<rparr> ''Town''
      = Inr \<lparr>columns = [''comum'', ''Region''],
             rows = [[Str ''LISBON'', Str ''X''], [Str ''FARO'', Str ''Y'']]\<rparr> \<and>
    cidades_comum \<lparr>columns = [''comum'', ''Region''],
             rows = [[Str ''LISBON'', Str ''X''], [Str ''FARO'', Str ''Y'' :: int cell]]\<rparr>
      = Inr [Str ''LISBON'', Str ''FARO''] \<and>
    filtrado \<lparr>columns = [''comum'', ''Pop''],
             rows = [[Str ''LISBON'', Other (500::int)], [Str ''PORTO'', Other 200]]\<rparr>
        [Str ''LISBON'', Str ''FARO'']
      = Inr \<lparr>columns = [''comum'', ''Pop''], rows = [[Str ''LISBON'', Other 500]]\<rparr> \<and>
    filtrado \<lparr>columns = [''comum'', ''Region''],
             rows = [[Str ''LISBON'', Str ''X''], [Str ''FARO'', Str ''Y'' :: int cell]]\<rparr>
        [Str ''LISBON'', Str ''FARO'']
      = Inr \<lparr>columns = [''comum'', ''Region''],
             rows = [[Str ''LISBON'', Str ''X''], [Str ''FARO'', Str ''Y'']]\<rparr> \<and>
    (\<exists>res. transfer py key_order
        \<lparr>columns = [''City'', ''Pop''],
         rows = [[Str ''Lisbon'', Other (500::int)], [Str '' porto '', Other 200]]\<rparr>
        \<lparr>columns = [''Town'', ''Region''],
         rows = [[Str ''LISBON'', Str ''X''], [Str ''Faro'', Str ''Y'']]\<rparr>
        ''City'' ''Town'' = Inr res \<and>
      columns res = [''comum'', ''Pop'', ''Region''] \<and>
      mset (rows res) = {#[Str ''LISBON'', Other 500, Str ''X''], [Str ''FARO'', NaN, Str ''Y'']#})"
proof -
  let ?T1 = "\<lparr>columns = [''City'', ''Pop''],
       rows = [[Str ''Lisbon'', Other (500::int)], [Str '' porto '', Other 200]]\<rparr>"
  let ?T2 = "\<lparr>columns = [''Town'', ''Region''],
       rows = [[Str ''LISBON'', Str ''X''], [Str ''Faro'', Str ''Y'' :: int cell]]\<rparr>"
  let ?N1 = "\<lparr>columns = [''comum'', ''Pop''],
             rows = [[Str ''LISBON'', Other (500::int)], [Str ''PORTO'', Other 200]]\<rparr>"
  let ?N2 = "\<lparr>columns = [''comum'', ''Region''],
             rows = [[Str ''LISBON'', Str ''X''], [Str ''FARO'', Str ''Y'' :: int cell]]\<rparr>"
  let ?F1 = "\<lparr>columns = [''comum'', ''Pop''], rows = [[Str ''LISBON'', Other (500::int)]]\<rparr>"
  let ?vals = "[Str ''LISBON'', Str ''FARO''] :: int cell list"
  have l1: "locs ''comum'' (columns (rename ?T1 ''City'' ''comum'')) = [0]" by code_simp
  have l2: "locs ''comum'' (columns (rename ?T2 ''Town'' ''comum'')) = [0]" by code_simp
  have ak1: "is_ascii ''Lisbon''" by code_simp
  have uk1: "ascii_upper (ascii_strip ''Lisbon'') = ''LISBON''" by code_simp
  have k1: "clean py (Str ''Lisbon'') = Str ''LISBON''"
    unfolding clean_ascii [OF assms(1) ak1] uk1 by (rule refl)
  have ak2: "is_ascii '' porto ''" by code_simp
  have uk2: "ascii_upper (ascii_strip '' porto '') = ''PORTO''" by code_simp
  have k2: "clean py (Str '' porto '') = Str ''PORTO''"
    unfolding clean_ascii [OF assms(1) ak2] uk2 by (rule refl)
  have ak3: "is_ascii ''LISBON''" by code_simp
  have uk3: "ascii_upper (ascii_strip ''LISBON'') = ''LISBON''" by code_simp
  have k3: "clean py (Str ''LISBON'') = Str ''LISBON''"
    unfolding clean_ascii [OF assms(1) ak3] uk3 by (rule refl)
  have ak4: "is_ascii ''Faro''" by code_simp
  have uk4: "ascii_upper (ascii_strip ''Faro'') = ''FARO''" by code_simp
  have k4: "clean py (Str ''Faro'') = Str ''FARO''"
    unfolding clean_ascii [OF assms(1) ak4] uk4 by (rule refl)
  have n1: "normalize_df py ?T1 ''City'' = Inr ?N1"
    using normalize_Inr [OF l1, of py] k1 k2 by simp
  have n2: "normalize_df py ?T2 ''Town'' = Inr ?N2"
    using normalize_Inr [OF l2, of py] k3 k4 by simp
  have v: "cidades_comum ?N2 = Inr ?vals" by code_simp
  have f1: "filtrado ?N1 ?vals = Inr ?F1" by code_simp
  have f2: "filtrado ?N2 ?vals = Inr ?N2" by code_simp
  have t: "transfer py key_order ?T1 ?T2 ''City'' ''Town'' = merge key_order ?F1 ?N2"
    using transfer_normalized [OF n1 n2 f1 f2 v, of key_order] by simp
  have m1: "locs ''comum'' (columns ?F1) = [0]" by code_simp
  have m2: "locs ''comum'' (columns ?N2) = [0]" by code_simp
  have m3: "suffix_dups (columns ?F1)
           (add_suffix ''_x'' (filter (\<lambda>c. c \<in> set (drop_at 0 (columns ?N2))) (columns ?F1)) (columns ?F1)) = []"
    by code_simp
  have m4: "suffix_dups (drop_at 0 (columns ?N2))
           (add_suffix ''_y'' (filter (\<lambda>c. c \<in> set (drop_at 0 (columns ?N2))) (columns ?F1))
              (drop_at 0 (columns ?N2))) = []"
    by code_simp
  have cols: "add_suffix ''_x'' (filter (\<lambda>c. c \<in> set (drop_at 0 (columns ?N2))) (columns ?F1)) (columns ?F1)
       @ add_suffix ''_y'' (filter (\<lambda>c. c \<in> set (drop_at 0 (columns ?N2))) (columns ?F1))
           (drop_at 0 (columns ?N2)) = [''comum'', ''Pop'', ''Region'']"
    by code_simp
  have ks: "unique (map (\<lambda>r. r ! 0) (rows ?F1) @ map (\<lambda>r. r ! 0) (rows ?N2)) = ?vals"
    by code_simp
  let ?G = "join_group 0 0 (length (columns ?F1)) (length (drop_at 0 (columns ?N2))) (rows ?F1) (rows ?N2)"
  have g: "concat (map ?G ?vals) = [[Str ''LISBON'', Other 500, Str ''X''], [Str ''FARO'', NaN, Str ''Y'']]"
    by code_simp
  have perm: "mset (key_order ?vals) = mset ?vals" using assms(2) by (rule spec)
  have ms: "mset (concat (map ?G (key_order ?vals)))
          = {#[Str ''LISBON'', Other 500, Str ''X''], [Str ''FARO'', NaN, Str ''Y'']#}"
    unfolding mset_concat_perm [OF perm] g by simp
  let ?res = "\<lparr>columns = [''comum'', ''Pop'', ''Region''], rows = concat (map ?G (key_order ?vals))\<rparr>"
  have "merge key_order ?F1 ?N2 = Inr ?res"
    unfolding merge_Inr [OF m1 m2 m3 m4] cols ks by (rule refl)
  then have r: "transfer py key_order ?T1 ?T2 ''City'' ''Town'' = Inr ?res" using t by simp
  have e: "\<exists>res. transfer py key_order ?T1 ?T2 ''City'' ''Town'' = Inr res \<and>
      columns res = [''comum'', ''Pop'', ''Region''] \<and>
      mset (rows res) = {#[Str ''LISBON'', Other 500, Str ''X''], [Str ''FARO'', NaN, Str ''Y'']#}"
  proof (intro exI conjI)
    show "transfer py key_order ?T1 ?T2 ''City'' ''Town'' = Inr ?res" by (rule r)
    show "columns ?res = [''comum'', ''Pop'', ''Region'']" by simp
    show "mset (rows ?res) = {#[Str ''LISBON'', Other 500, Str ''X''], [Str ''FARO'', NaN, Str ''Y'']#}"
      using ms by simp
  qed
  show ?thesis by (intro conjI) (rule n1, rule n2, rule v, rule f1, rule f2, rule e)
qed

theorem end_to_end_scenario_witness:
  "ascii_faithful (ascii_py (\<lambda>n :: int. '''')) \<and>
   (\<forall>ks :: int cell list. mset ((\<lambda>ks. ks) ks) = mset ks) \<and>
   (\<exists>res. transfer (ascii_py (\<lambda>n. '''')) (\<lambda>ks. ks)
        \<lparr>columns = [''City'', ''Pop''],
         rows = [[Str ''Lisbon'', Other (500::int)], [Str '' porto '', Other 200]]\<rparr>
        \<lparr>columns = [''Town'', ''Region''],
         rows = [[Str ''LISBON'', Str ''X''], [Str ''Faro'', Str ''Y'']]\<rparr>
        ''City'' ''Town'' = Inr res \<and>
      columns res = [''comum'', ''Pop'', ''Region''] \<and>
      mset (rows res) = {#[Str ''LISBON'', Other 500, Str ''X''], [Str ''FARO'', NaN, Str ''Y'']#})"
proof -
  have h: "\<forall>ks :: int cell list. mset ((\<lambda>ks. ks) ks) = mset ks" by simp
  have af: "ascii_faithful (ascii_py (\<lambda>n :: int. ''''))" by (rule ascii_faithful_ascii_py)
  note t = end_to_end_scenario [OF af h]
  have e: "\<exists>res. transfer (ascii_py (\<lambda>n. '''')) (\<lambda>ks. ks)
        \<lparr>columns = [''City'', ''Pop''],
         rows = [[Str ''Lisbon'', Other (500::int)], [Str '' porto '', Other 200]]\<rparr>
        \<lparr>columns = [''Town'', ''Region''],
         rows = [[Str ''LISBON'', Str ''X''], [Str ''Faro'', Str ''Y'']]\<rparr>
        ''City'' ''Town'' = Inr res \<and>
      columns res = [''comum'', ''Pop'', ''Region''] \<and>
      mset (rows res) = {#[Str ''LISBON'', Other 500, Str ''X''], [Str ''FARO'', NaN, Str ''Y'']#}"
    using t by (elim conjE)
  show ?thesis by (intro conjI) (rule af, rule h, rule e)
qed

text \<open>
  The claim as stated gives the common key set as \<^verbatim>\<open>LISBON\<close> alone, the filtered second
  table as its \<^verbatim>\<open>LISBON\<close> row alone and the result as the single joined row. The list of
  line 67 is computed from the second table only, so the filter of line 74 removes nothing
  and the outer join of line 89 keeps the row of \<^verbatim>\<open>FARO\<close>.
\<close>

theorem end_to_end_single_row_counterexample:
  "transfer (ascii_py (\<lambda>n. '''')) (\<lambda>ks. ks)
        \<lparr>columns = [''City'', ''Pop''],
         rows = [[Str ''Lisbon'', Other (500::int)], [Str '' porto '', Other 200]]\<rparr>
        \<lparr>columns = [''Town'', ''Region''],
         rows = [[Str ''LISBON'', Str ''X''], [Str ''Faro'', Str ''Y'']]\<rparr>
        ''City'' ''Town''
     = Inr \<lparr>columns = [''comum'', ''Pop'', ''Region''],
            rows = [[Str ''LISBON'', Other 500, Str ''X''], [Str ''FARO'', NaN, Str ''Y'']]\<rparr> \<and>
   transfer (ascii_py (\<lambda>n. '''')) (\<lambda>ks. ks)
        \<lparr>columns = [''City'', ''Pop''],
         rows = [[Str ''Lisbon'', Other (500::int)], [Str '' porto '', Other 200]]\<rparr>
        \<lparr>columns = [''Town'', ''Region''],
         rows = [[Str ''LISBON'', Str ''X''], [Str ''Faro'', Str ''Y'']]\<rparr>
        ''City'' ''Town''
     \<noteq> Inr \<lparr>columns = [''comum'', ''Pop'', ''Region''],
            rows = [[Str ''LISBON'', Other 500, Str ''X'']]\<rparr> \<and>
   cidades_comum \<lparr>columns = [''comum'', ''Region''],
             rows = [[Str ''LISBON'', Str ''X''], [Str ''FARO'', Str ''Y'' :: int cell]]\<rparr>
     \<noteq> Inr [Str ''LISBON''] \<and>
   filtrado \<lparr>columns = [''comum'', ''Region''],
             rows = [[Str ''LISBON'', Str ''X''], [Str ''FARO'', Str ''Y'' :: int cell]]\<rparr>
        [Str ''LISBON'', Str ''FARO'']
     \<noteq> Inr \<lparr>columns = [''comum'', ''Region''], rows = [[Str ''LISBON'', Str ''X'']]\<rparr>"
  by code_simp

section \<open>A key column that is not there\<close>

text \<open>
  Claim C2 says that a requested key column absent from its table makes the handler fail
  with the missing-column error, also when the table has a column labelled \<^verbatim>\<open>comum\<close>.
  The check of line 61 comes after the renaming, which ignores an absent label, and after
  the column access of line 56. With a column \<^verbatim>\<open>comum\<close> already there and the requested
  \<^verbatim>\<open>City\<close> absent, the handler does not fail: it joins on the existing column. Without
  such a column the access of line 56 raises \<^verbatim>\<open>KeyError\<close> before line 61 is reached
  (\<open>transfer_missing_key_KeyError\<close>), and no input makes the handler return the message of
  line 63 (\<open>transfer_never_MissingColumnError\<close>).
\<close>

theorem missing_key_with_comum_column:
  "''City'' \<notin> set [''comum'', ''Pop''] \<and>
   transfer (ascii_py (\<lambda>n. '''')) (\<lambda>ks. ks)
        \<lparr>columns = [''comum'', ''Pop''],
         rows = [[Str ''Lisbon'', Other (500::int)], [Str '' porto '', Other 200]]\<rparr>
        \<lparr>columns = [''Town'', ''Region''],
         rows = [[Str ''LISBON'', Str ''X''], [Str ''Faro'', Str ''Y'']]\<rparr>
        ''City'' ''Town''
     = Inr \<lparr>columns = [''comum'', ''Pop'', ''Region''],
            rows = [[Str ''LISBON'', Other 500, Str ''X''], [Str ''FARO'', NaN, Str ''Y'']]\<rparr> \<and>
   transfer (ascii_py (\<lambda>n. '''')) (\<lambda>ks. ks)
        \<lparr>columns = [''Cidade'', ''Pop''],
         rows = [[Str ''Lisbon'', Other (500::int)], [Str '' porto '', Other 200]]\<rparr>
        \<lparr>columns = [''Town'', ''Region''],
         rows = [[Str ''LISBON'', Str ''X''], [Str ''Faro'', Str ''Y'']]\<rparr>
        ''City'' ''Town''
     = Inl KeyError"
  by code_simp

theorem missing_key_with_comum_column_witness:
  "transfer (ascii_py (\<lambda>n. '''')) (\<lambda>ks. ks)
        \<lparr>columns = [''comum'', ''Pop''],
         rows = [[Str ''Lisbon'', Other (500::int)], [Str '' porto '', Other 200]]\<rparr>
        \<lparr>columns = [''Town'', ''Region''],
         rows = [[Str ''LISBON'', Str ''X''], [Str ''Faro'', Str ''Y'']]\<rparr>
        ''City'' ''Town''
     = Inr \<lparr>columns = [''comum'', ''Pop'', ''Region''],
            rows = [[Str ''LISBON'', Other 500, Str ''X''], [Str ''FARO'', NaN, Str ''Y'']]\<rparr>"
  using missing_key_with_comum_column by (elim conjE)

end
